theory Spec2Isabelle
  imports Main "HOL-Library.Word" "HOL-Library.Multiset"
begin

unbundle bit_operations_syntax

section \<open>Go errors\<close>

text \<open>
  A Go \<open>error\<close> value. \<open>Base e\<close> is an error produced outside this repository (the
  driver, the context package, the caller's function); the other constructors are the
  wrappers the repository builds:
  \<^item> \<open>errors.Wrap(err, msg)\<close> of \<open>github.com/pkg/errors\<close> returns a \<open>withStack\<close> around
    a \<open>withMessage{cause: err, msg: msg}\<close>, and \<open>nil\<close> when \<open>err\<close> is \<open>nil\<close>;
  \<^item> \<open>fmt.Errorf\<close> with one \<open>%w\<close> verb returns a \<open>wrapError{msg, err}\<close> whose \<open>Unwrap\<close> is
    the operand of \<open>%w\<close>.
  A \<open>nil\<close> error is \<open>None\<close> of \<open>'e error option\<close>.
\<close>

datatype 'e error =
    Base 'e
  | WithMessage "'e error" string
  | WithStack "'e error"
  | WrapError string "'e error"

fun Unwrap :: "'e error \<Rightarrow> 'e error option" where
  "Unwrap (Base e) = None"
| "Unwrap (WithMessage cause msg) = Some cause"
| "Unwrap (WithStack err) = Some err"
| "Unwrap (WrapError msg err) = Some err"

text \<open>\<open>err.Error()\<close>, given the text of the errors made outside the repository.\<close>

fun Error :: "('e \<Rightarrow> string) \<Rightarrow> 'e error \<Rightarrow> string" where
  "Error txt (Base e) = txt e"
| "Error txt (WithMessage cause msg) = msg @ '': '' @ Error txt cause"
| "Error txt (WithStack err) = Error txt err"
| "Error txt (WrapError msg err) = msg"

definition errors_Wrap :: "'e error option \<Rightarrow> string \<Rightarrow> 'e error option" where
  "errors_Wrap err message =
     (case err of None \<Rightarrow> None | Some e \<Rightarrow> Some (WithStack (WithMessage e message)))"

section \<open>The retry loop of RetryingStorage\<close>

text \<open>
  The tests the loop applies to an error are functions of the driver and of the standard
  library; the loop is modelled for any such functions:
  \<open>errors.Is(err, context.Canceled)\<close>, \<open>errors.Is(err, mongo.ErrClientDisconnected)\<close>,
  \<open>mongo.IsTimeout(err)\<close>, \<open>mongo.IsNetworkError(err)\<close>, the type assertion
  \<open>err.(driver.RetryablePoolError)\<close> and \<open>errors.As(err, &waitQueueTimeoutError)\<close>.
\<close>

record 'e classifier =
  is_Canceled :: "'e error \<Rightarrow> bool"
  is_ErrClientDisconnected :: "'e error \<Rightarrow> bool"
  IsTimeout :: "'e error \<Rightarrow> bool"
  IsNetworkError :: "'e error \<Rightarrow> bool"
  is_RetryablePoolError :: "'e error \<Rightarrow> bool"
  as_WaitQueueTimeoutError :: "'e error \<Rightarrow> bool"

text \<open>
  What the loop does to the world besides calling \<open>fn\<close>: it logs and it sleeps. \<open>Called\<close>
  marks one call of \<open>fn\<close>; \<open>Info msg attempt err\<close> is \<open>s.logger.Info(msg, attempt, err.Error())\<close>
  (the error stands for its text); \<open>Sleep d\<close> is \<open>time.Sleep(d)\<close>, \<open>d\<close> a \<open>time.Duration\<close>
  in nanoseconds.
\<close>

datatype 'e event = Called | Info string int "'e error" | Sleep int

definition Millisecond :: int where
  "Millisecond = 1000000"

definition maxRetries :: int where
  "maxRetries = 10"

text \<open>
  \<open>fn\<close> is a Go closure: it acts on the world \<open>'s\<close> (the upstream storage, the
  destination it decodes into, the variables it captures) and returns an error or \<open>nil\<close>.
  \<open>attempt\<close> and \<open>err\<close> are the loop's two variables; \<open>attempt\<close> is a Go \<open>int\<close> that
  stays between 1 and 11, and the sleep is at most \<open>10 * 10 * 1000000\<close> nanoseconds, so
  neither wraps around.
\<close>

function retry_loop ::
  "'e classifier \<Rightarrow> ('s \<Rightarrow> 'e error option \<times> 's) \<Rightarrow> int \<Rightarrow> 'e error option \<Rightarrow> 's
     \<Rightarrow> 'e event list \<Rightarrow> 'e error option \<times> 's \<times> 'e event list" where
  "retry_loop cl fn attempt err w tr =
     (if attempt > maxRetries then (errors_Wrap err ''exceeded retry limit'', w, tr)
      else case fn w of
        (None, w') \<Rightarrow> (None, w', tr @ [Called])
      | (Some e, w') \<Rightarrow>
          if is_Canceled cl e then (Some e, w', tr @ [Called])
          else if is_ErrClientDisconnected cl e then
            retry_loop cl fn (attempt + 1) (Some e) w'
              (tr @ [Called, Info ''retrying mongodb client disconnected'' attempt e,
                     Sleep (10 * attempt * Millisecond)])
          else if IsTimeout cl e then
            retry_loop cl fn (attempt + 1) (Some e) w'
              (tr @ [Called, Info ''retrying mongodb timeout'' attempt e,
                     Sleep (10 * attempt * Millisecond)])
          else if IsNetworkError cl e then
            retry_loop cl fn (attempt + 1) (Some e) w'
              (tr @ [Called, Info ''retrying mongodb network error'' attempt e,
                     Sleep (10 * attempt * Millisecond)])
          else if is_RetryablePoolError cl e then
            retry_loop cl fn (attempt + 1) (Some e) w'
              (tr @ [Called, Info ''retrying mongodb pool error'' attempt e,
                     Sleep (10 * attempt * Millisecond)])
          else if as_WaitQueueTimeoutError cl e then
            retry_loop cl fn (attempt + 1) (Some e) w'
              (tr @ [Called, Info ''retrying WaitQueueTimeoutError'' attempt e,
                     Sleep (10 * attempt * Millisecond)])
          else (Some e, w', tr @ [Called]))"
  by pat_completeness auto
termination
  by (relation "measure (\<lambda>(cl, fn, attempt, err, w, tr). nat (maxRetries + 1 - attempt))")
     (auto simp: maxRetries_def)

definition retry ::
  "'e classifier \<Rightarrow> ('s \<Rightarrow> 'e error option \<times> 's) \<Rightarrow> 's
     \<Rightarrow> 'e error option \<times> 's \<times> 'e event list" where
  "retry cl fn w = retry_loop cl fn 1 None w []"

section \<open>The storage interface and the retrying decorator\<close>

type_synonym uint64 = "64 word" \<comment> \<open>read with \<open>unat\<close>\<close>
type_synonym int64 = "64 word" \<comment> \<open>read with \<open>sint\<close>\<close>
type_synonym ObjectID = "8 word list"

text \<open>
  \<open>StorageReaderWriter\<close>: the methods of an implementation, each acting on the world \<open>'s\<close>.
  \<open>'c\<close> is \<open>context.Context\<close>, \<open>'a\<close> is \<open>interface{}\<close> (filters, documents, updates,
  destinations).
\<close>

record ('c, 'a, 'e, 's) StorageReaderWriter =
  FindOne :: "'c \<Rightarrow> string \<Rightarrow> 'a \<Rightarrow> 'a \<Rightarrow> 's \<Rightarrow> 'e error option \<times> 's"
  FindAll :: "'c \<Rightarrow> string \<Rightarrow> 'a \<Rightarrow> 'a \<Rightarrow> 's \<Rightarrow> 'e error option \<times> 's"
  FindMany :: "'c \<Rightarrow> string \<Rightarrow> 'a \<Rightarrow> uint64 \<Rightarrow> uint64 \<Rightarrow> string \<Rightarrow> 'a \<Rightarrow> 's
                 \<Rightarrow> (uint64 \<times> 'e error option) \<times> 's"
  RunInTransaction :: "'c \<Rightarrow> ('c \<Rightarrow> 's \<Rightarrow> 'e error option \<times> 's) \<Rightarrow> 's \<Rightarrow> 'e error option \<times> 's"
  Insert :: "'c \<Rightarrow> string \<Rightarrow> 'a \<Rightarrow> 's \<Rightarrow> 'e error option \<times> 's"
  Update :: "'c \<Rightarrow> string \<Rightarrow> ObjectID \<Rightarrow> 'a \<Rightarrow> 's \<Rightarrow> (int64 \<times> 'e error option) \<times> 's"
  Upsert :: "'c \<Rightarrow> string \<Rightarrow> 'a \<Rightarrow> 'a \<Rightarrow> 's \<Rightarrow> (int64 \<times> 'e error option) \<times> 's"
  Delete :: "'c \<Rightarrow> string \<Rightarrow> ObjectID \<Rightarrow> 's \<Rightarrow> (int64 \<times> 'e error option) \<times> 's"
  DeleteMany :: "'c \<Rightarrow> string \<Rightarrow> 'a \<Rightarrow> 's \<Rightarrow> (int64 \<times> 'e error option) \<times> 's"
  GetDatabaseName :: "'s \<Rightarrow> string"

definition RetryingStorage_FindOne ::
  "'e classifier \<Rightarrow> ('c, 'a, 'e, 's) StorageReaderWriter \<Rightarrow> 'c \<Rightarrow> string \<Rightarrow> 'a \<Rightarrow> 'a \<Rightarrow> 's
     \<Rightarrow> 'e error option \<times> 's \<times> 'e event list" where
  "RetryingStorage_FindOne cl upstream ctx collection filter' dest w =
     retry cl (FindOne upstream ctx collection filter' dest) w"

definition RetryingStorage_FindAll ::
  "'e classifier \<Rightarrow> ('c, 'a, 'e, 's) StorageReaderWriter \<Rightarrow> 'c \<Rightarrow> string \<Rightarrow> 'a \<Rightarrow> 'a \<Rightarrow> 's
     \<Rightarrow> 'e error option \<times> 's \<times> 'e event list" where
  "RetryingStorage_FindAll cl upstream ctx collection filter' dest w =
     retry cl (FindAll upstream ctx collection filter' dest) w"

text \<open>
  The closure of \<open>FindMany\<close> assigns the named result \<open>total\<close> at every call, so its world
  is the upstream world together with \<open>total\<close> (zero before the first call). It also
  assigns \<open>err\<close>, which the result of \<open>retry\<close> then overwrites.
\<close>

definition FindMany_closure ::
  "('s \<Rightarrow> (uint64 \<times> 'e error option) \<times> 's) \<Rightarrow> 's \<times> uint64 \<Rightarrow> 'e error option \<times> 's \<times> uint64" where
  "FindMany_closure call = (\<lambda>(w, total'). case call w of ((t, e), w') \<Rightarrow> (e, (w', t)))"

definition RetryingStorage_FindMany ::
  "'e classifier \<Rightarrow> ('c, 'a, 'e, 's) StorageReaderWriter \<Rightarrow> 'c \<Rightarrow> string \<Rightarrow> 'a \<Rightarrow> uint64 \<Rightarrow> uint64
     \<Rightarrow> string \<Rightarrow> 'a \<Rightarrow> 's \<Rightarrow> (uint64 \<times> 'e error option) \<times> 's \<times> 'e event list" where
  "RetryingStorage_FindMany cl upstream ctx collection filter' limit offset sort' dest w =
     (case retry cl (FindMany_closure (FindMany upstream ctx collection filter' limit offset sort' dest))
             (w, 0) of
        (err, (w', total'), tr) \<Rightarrow> ((total', err), w', tr))"


text \<open>Writes and transactions are handed to the upstream implementation.\<close>

definition RetryingStorage_RunInTransaction ::
  "('c, 'a, 'e, 's) StorageReaderWriter \<Rightarrow> 'c \<Rightarrow> ('c \<Rightarrow> 's \<Rightarrow> 'e error option \<times> 's) \<Rightarrow> 's
     \<Rightarrow> 'e error option \<times> 's" where
  "RetryingStorage_RunInTransaction upstream ctx fn w = RunInTransaction upstream ctx fn w"

definition RetryingStorage_Insert ::
  "('c, 'a, 'e, 's) StorageReaderWriter \<Rightarrow> 'c \<Rightarrow> string \<Rightarrow> 'a \<Rightarrow> 's \<Rightarrow> 'e error option \<times> 's" where
  "RetryingStorage_Insert upstream ctx collection document w =
     Insert upstream ctx collection document w"

definition RetryingStorage_Update ::
  "('c, 'a, 'e, 's) StorageReaderWriter \<Rightarrow> 'c \<Rightarrow> string \<Rightarrow> ObjectID \<Rightarrow> 'a \<Rightarrow> 's
     \<Rightarrow> (int64 \<times> 'e error option) \<times> 's" where
  "RetryingStorage_Update upstream ctx collection docID update w =
     Update upstream ctx collection docID update w"

definition RetryingStorage_Upsert ::
  "('c, 'a, 'e, 's) StorageReaderWriter \<Rightarrow> 'c \<Rightarrow> string \<Rightarrow> 'a \<Rightarrow> 'a \<Rightarrow> 's
     \<Rightarrow> (int64 \<times> 'e error option) \<times> 's" where
  "RetryingStorage_Upsert upstream ctx collection docID update w =
     Upsert upstream ctx collection docID update w"

definition RetryingStorage_Delete ::
  "('c, 'a, 'e, 's) StorageReaderWriter \<Rightarrow> 'c \<Rightarrow> string \<Rightarrow> ObjectID \<Rightarrow> 's
     \<Rightarrow> (int64 \<times> 'e error option) \<times> 's" where
  "RetryingStorage_Delete upstream ctx collection docID w =
     Delete upstream ctx collection docID w"

definition RetryingStorage_DeleteMany ::
  "('c, 'a, 'e, 's) StorageReaderWriter \<Rightarrow> 'c \<Rightarrow> string \<Rightarrow> 'a \<Rightarrow> 's
     \<Rightarrow> (int64 \<times> 'e error option) \<times> 's" where
  "RetryingStorage_DeleteMany upstream ctx collection filter' w =
     DeleteMany upstream ctx collection filter' w"

subsection \<open>Vocabulary of the properties\<close>

text \<open>
  The world after \<open>n\<close> successive calls of an operation, and what its \<open>i\<close>-th call
  (counted from 1) returns.
\<close>

fun after_calls :: "('s \<Rightarrow> 'r \<times> 's) \<Rightarrow> 's \<Rightarrow> nat \<Rightarrow> 's" where
  "after_calls f w 0 = w"
| "after_calls f w (Suc n) = snd (f (after_calls f w n))"

definition call_result :: "('s \<Rightarrow> 'r \<times> 's) \<Rightarrow> 's \<Rightarrow> nat \<Rightarrow> 'r" where
  "call_result f w i = fst (f (after_calls f w (i - 1)))"

text \<open>
  A result the loop recognizes as a transient failure: an error that passes the
  cancellation test the loop makes first and matches one of its five retried categories.
\<close>

definition recognized_transient :: "'e classifier \<Rightarrow> 'e error option \<Rightarrow> bool" where
  "recognized_transient cl r =
     (case r of
        None \<Rightarrow> False
      | Some e \<Rightarrow> \<not> is_Canceled cl e \<and>
          (is_ErrClientDisconnected cl e \<or> IsTimeout cl e \<or> IsNetworkError cl e \<or>
           is_RetryablePoolError cl e \<or> as_WaitQueueTimeoutError cl e))"

text \<open>
  The message the loop logs for an error it retries: that of the first category, in the
  loop's order, the error matches.
\<close>

definition retry_message :: "'e classifier \<Rightarrow> 'e error \<Rightarrow> string" where
  "retry_message cl e =
     (if is_ErrClientDisconnected cl e then ''retrying mongodb client disconnected''
      else if IsTimeout cl e then ''retrying mongodb timeout''
      else if IsNetworkError cl e then ''retrying mongodb network error''
      else if is_RetryablePoolError cl e then ''retrying mongodb pool error''
      else ''retrying WaitQueueTimeoutError'')"

text \<open>The sleeps of a trace, in order, and the number of calls of \<open>fn\<close> in it.\<close>

fun sleeps :: "'e event list \<Rightarrow> int list" where
  "sleeps [] = []"
| "sleeps (Sleep d # tr) = d # sleeps tr"
| "sleeps (_ # tr) = sleeps tr"

fun calls :: "'e event list \<Rightarrow> nat" where
  "calls [] = 0"
| "calls (Called # tr) = Suc (calls tr)"
| "calls (_ # tr) = calls tr"

section \<open>Storage: the adapter over the driver\<close>

subsection \<open>Transactions\<close>

text \<open>
  The session primitives of the driver, acting on the world: \<open>StartSession\<close> with its
  options, \<open>EndSession\<close>, the session context \<open>mongo.WithSession\<close> hands to its callback,
  \<open>StartTransaction\<close>, \<open>CommitTransaction\<close>, \<open>AbortTransaction\<close>.
\<close>

datatype SessionOption = DefaultReadConcern string | DefaultReadPreference string

record ('c, 'e, 's) Session =
  StartSession :: "SessionOption list \<Rightarrow> 's \<Rightarrow> 'e error option \<times> 's"
  EndSession :: "'c \<Rightarrow> 's \<Rightarrow> 's"
  NewSessionContext :: "'c \<Rightarrow> 'c"
  StartTransaction :: "'s \<Rightarrow> 'e error option \<times> 's"
  CommitTransaction :: "'c \<Rightarrow> 's \<Rightarrow> 'e error option \<times> 's"
  AbortTransaction :: "'c \<Rightarrow> 's \<Rightarrow> 'e error option \<times> 's"

text \<open>The callback given to \<open>mongo.WithSession\<close>.\<close>

definition transaction_body ::
  "('c, 'e, 's) Session \<Rightarrow> ('c \<Rightarrow> 's \<Rightarrow> 'e error option \<times> 's) \<Rightarrow> 'c \<Rightarrow> 's \<Rightarrow> 'e error option \<times> 's" where
  "transaction_body sess fn sessCtx w =
     (case StartTransaction sess w of
        (Some err, w1) \<Rightarrow> (Some err, w1)
      | (None, w1) \<Rightarrow>
          (case fn sessCtx w1 of
             (Some err, w2) \<Rightarrow> (Some err, w2)
           | (None, w2) \<Rightarrow> CommitTransaction sess sessCtx w2))"

text \<open>
  \<open>fmt.Errorf("%w %v", abortErr, err)\<close>: the text of both errors with a space between,
  wrapping \<open>abortErr\<close>.
\<close>

definition Errorf_w_v :: "('e \<Rightarrow> string) \<Rightarrow> 'e error \<Rightarrow> 'e error \<Rightarrow> 'e error" where
  "Errorf_w_v txt abortErr err = WrapError (Error txt abortErr @ '' '' @ Error txt err) abortErr"

text \<open>\<open>defer sess.EndSession(ctx)\<close> runs on every return after the session has started.\<close>

definition Storage_RunInTransaction ::
  "('e \<Rightarrow> string) \<Rightarrow> ('c, 'e, 's) Session \<Rightarrow> 'c \<Rightarrow> ('c \<Rightarrow> 's \<Rightarrow> 'e error option \<times> 's) \<Rightarrow> 's
     \<Rightarrow> 'e error option \<times> 's" where
  "Storage_RunInTransaction txt sess ctx fn w =
     (case StartSession sess [DefaultReadConcern ''majority'', DefaultReadPreference ''primary''] w of
        (Some err, w0) \<Rightarrow> (Some err, w0)
      | (None, w0) \<Rightarrow>
          (case transaction_body sess fn (NewSessionContext sess ctx) w0 of
             (Some err, w1) \<Rightarrow>
               (case AbortTransaction sess ctx w1 of
                  (Some abortErr, w2) \<Rightarrow> (Some (Errorf_w_v txt abortErr err), EndSession sess ctx w2)
                | (None, w2) \<Rightarrow> (Some err, EndSession sess ctx w2))
           | (None, w1) \<Rightarrow> (None, EndSession sess ctx w1)))"

subsection \<open>FindMany\<close>

text \<open>
  The driver as \<open>FindMany\<close> uses it. \<open>options.Find()\<close> has no field set; \<open>SetLimit\<close>,
  \<open>SetSkip\<close> and \<open>SetSort\<close> set one each. A sort document \<open>bson.D\<close> is a list of keys with
  their directions. \<open>Find\<close> returns a cursor or an error; \<open>cursor.All(ctx, dest)\<close> takes
  the destination, a slice of decoded elements \<open>'x\<close>, and returns what it leaves in it, and
  an error or \<open>nil\<close>.
\<close>

record FindOptions =
  Limit :: "int64 option"
  Skip :: "int64 option"
  Sort :: "(string \<times> int) list option"

definition options_Find :: FindOptions where
  "options_Find = \<lparr>Limit = None, Skip = None, Sort = None\<rparr>"

record ('c, 'x, 'e) Cursor =
  Cursor_All :: "'c \<Rightarrow> 'x list \<Rightarrow> 'x list \<times> 'e error option"

record ('c, 'f, 'x, 'e) Collection =
  CountDocuments :: "'c \<Rightarrow> 'f \<Rightarrow> int64 \<times> 'e error option"
  Find :: "'c \<Rightarrow> 'f \<Rightarrow> FindOptions \<Rightarrow> 'e error + ('c, 'x, 'e) Cursor"

definition HasPrefix :: "string \<Rightarrow> string \<Rightarrow> bool" where
  "HasPrefix s prefix' = (length s \<ge> length prefix' \<and> take (length prefix') s = prefix')"

definition TrimPrefix :: "string \<Rightarrow> string \<Rightarrow> string" where
  "TrimPrefix s prefix' = (if HasPrefix s prefix' then drop (length prefix') s else s)"

text \<open>
  \<open>database\<close> is \<open>s.database.Collection\<close>. The conversions \<open>uint64(count)\<close>,
  \<open>int64(limit)\<close> and \<open>int64(offset)\<close> keep the 64 bits as they are. The destination goes
  in and comes out.
\<close>

definition Storage_FindMany ::
  "(string \<Rightarrow> ('c, 'f, 'x, 'e) Collection) \<Rightarrow> 'c \<Rightarrow> string \<Rightarrow> 'f \<Rightarrow> uint64 \<Rightarrow> uint64 \<Rightarrow> string
     \<Rightarrow> 'x list \<Rightarrow> (uint64 \<times> 'e error option) \<times> 'x list" where
  "Storage_FindMany database ctx collection filter' limit offset sort' dest =
     (case CountDocuments (database collection) ctx filter' of
        (count', Some err) \<Rightarrow> ((count', Some err), dest)
      | (count', None) \<Rightarrow>
          (let findOptions = options_Find\<lparr>Limit := Some limit, Skip := Some offset\<rparr>;
               findOptions =
                 (if sort' \<noteq> [] then
                    (let (sortKey, sortValue) =
                       (if HasPrefix sort' ''-'' then (TrimPrefix sort' ''-'', - 1)
                        else (sort', 1))
                     in findOptions\<lparr>Sort := Some [(sortKey, sortValue)]\<rparr>)
                  else findOptions)
           in case Find (database collection) ctx filter' findOptions of
                Inl err \<Rightarrow> ((count', Some err), dest)
              | Inr cursor \<Rightarrow>
                  (case Cursor_All cursor ctx dest of (dest', err) \<Rightarrow> ((count', err), dest'))))"

text \<open>
  A store that answers as the driver documents. The documents of a collection are a list,
  in their natural order; \<open>matches\<close> says which documents a filter selects and
  \<open>key F d\<close> is the value document \<open>d\<close> is ordered by under the field \<open>F\<close>.
  \<^item> \<open>CountDocuments\<close> counts the documents the filter selects.
  \<^item> \<open>Find\<close> sorts what the filter selects (direction \<open>1\<close> ascending, \<open>-1\<close> descending; the
    model reads the first key of the sort document, and \<open>FindMany\<close> gives one), skips
    \<open>Skip\<close> documents and returns at most \<open>Limit\<close> of the rest. A limit of \<open>0\<close> means no
    limit; a negative limit stands for its absolute value; a negative skip is refused.
  \<^item> \<open>cursor.All\<close> decodes the documents of the cursor one by one: the \<open>i\<close>-th into the
    \<open>i\<close>-th element the destination already holds (\<open>unmarshal d x\<close> is the element \<open>x\<close>
    after document \<open>d\<close> has been decoded into it), and into a new element \<open>zero\<close> once the
    destination is used up; the destination is then cut to the elements decoded. So what
    it leaves depends on what the destination held. The destination is the list of the
    elements of the slice; capacity beyond its length is not modelled.
  \<^item> \<open>CountDocuments\<close> and \<open>Find\<close> can fail with the error \<open>faults\<close> holds. The cursor
    can fail to fetch more after \<open>n\<close> documents (\<open>next_fault = Some (n, err)\<close>): the
    destination is left with those \<open>n\<close> decoded, and the error is returned. Decoding itself
    does not fail in this model.
\<close>

record 'e faults =
  count_fault :: "'e error option"
  find_fault :: "'e error option"
  next_fault :: "(nat \<times> 'e error) option"
  negative_skip :: "'e error"

definition apply_sort ::
  "(string \<Rightarrow> 'd \<Rightarrow> 'k::linorder) \<Rightarrow> (string \<times> int) list option \<Rightarrow> 'd list \<Rightarrow> 'd list" where
  "apply_sort key srt ds =
     (case srt of
        None \<Rightarrow> ds
      | Some [] \<Rightarrow> ds
      | Some ((F, dir) # _) \<Rightarrow> if dir < 0 then rev (sort_key (key F) ds) else sort_key (key F) ds)"

definition apply_skip :: "int64 option \<Rightarrow> 'd list \<Rightarrow> 'd list" where
  "apply_skip skp ds = (case skp of None \<Rightarrow> ds | Some n \<Rightarrow> drop (nat (sint n)) ds)"

definition apply_limit :: "int64 option \<Rightarrow> 'd list \<Rightarrow> 'd list" where
  "apply_limit lim ds =
     (case lim of
        None \<Rightarrow> ds
      | Some n \<Rightarrow> if sint n = 0 then ds else take (nat \<bar>sint n\<bar>) ds)"

fun decode_all :: "('d \<Rightarrow> 'x \<Rightarrow> 'x) \<Rightarrow> 'x \<Rightarrow> 'd list \<Rightarrow> 'x list \<Rightarrow> 'x list" where
  "decode_all unmarshal zero [] dest = []"
| "decode_all unmarshal zero (d # ds) [] = unmarshal d zero # decode_all unmarshal zero ds []"
| "decode_all unmarshal zero (d # ds) (x # dest) =
     unmarshal d x # decode_all unmarshal zero ds dest"

definition mem_Collection ::
  "('f \<Rightarrow> 'd \<Rightarrow> bool) \<Rightarrow> (string \<Rightarrow> 'd \<Rightarrow> 'k::linorder) \<Rightarrow> ('d \<Rightarrow> 'x \<Rightarrow> 'x) \<Rightarrow> 'x \<Rightarrow> 'e faults
     \<Rightarrow> 'd list \<Rightarrow> ('c, 'f, 'x, 'e) Collection" where
  "mem_Collection matches key unmarshal zero faults docs =
     \<lparr>CountDocuments = (\<lambda>ctx flt.
        case count_fault faults of
          Some err \<Rightarrow> (0, Some err)
        | None \<Rightarrow> (of_nat (length (filter (matches flt) docs)), None)),
      Find = (\<lambda>ctx flt opts.
        case find_fault faults of
          Some err \<Rightarrow> Inl err
        | None \<Rightarrow>
            if (case Skip opts of None \<Rightarrow> False | Some n \<Rightarrow> sint n < 0)
            then Inl (negative_skip faults)
            else Inr \<lparr>Cursor_All = (\<lambda>ctx dest.
              let page = apply_limit (Limit opts)
                     (apply_skip (Skip opts) (apply_sort key (Sort opts) (filter (matches flt) docs)))
              in case next_fault faults of
                   Some (n, err) \<Rightarrow> (decode_all unmarshal zero (take n page) dest, Some err)
                 | None \<Rightarrow> (decode_all unmarshal zero page dest, None))\<rparr>)\<rparr>"

text \<open>The database whose collections are the documents \<open>colls\<close> gives by name.\<close>

definition mem_database ::
  "('f \<Rightarrow> 'd \<Rightarrow> bool) \<Rightarrow> (string \<Rightarrow> 'd \<Rightarrow> 'k::linorder) \<Rightarrow> ('d \<Rightarrow> 'x \<Rightarrow> 'x) \<Rightarrow> 'x \<Rightarrow> 'e faults
     \<Rightarrow> (string \<Rightarrow> 'd list) \<Rightarrow> string \<Rightarrow> ('c, 'f, 'x, 'e) Collection" where
  "mem_database matches key unmarshal zero faults colls =
     (\<lambda>name. mem_Collection matches key unmarshal zero faults (colls name))"

section \<open>Document identifiers\<close>

text \<open>
  \<open>primitive.ObjectID\<close> is an array of 12 bytes, \<open>NilObjectID\<close> its zero value.
  \<open>ObjectIDFromHex\<close> and \<open>Hex\<close> are the driver's, over \<open>encoding/hex\<close>: a string of a
  length other than 24 is \<open>ErrInvalidHex\<close>; every two characters decode to one byte, a
  character that is no hexadecimal digit (of either case) being an \<open>InvalidByteError\<close>;
  encoding writes the two lower-case digits of each byte. With an error comes
  \<open>NilObjectID\<close>. A Go string is a sequence of bytes, as \<open>string\<close> is.
\<close>

datatype hex_error = ErrInvalidHex | ErrLength | InvalidByteError char

definition NilObjectID :: ObjectID where
  "NilObjectID = replicate 12 0"

definition fromHexChar :: "char \<Rightarrow> 8 word option" where
  "fromHexChar c =
     (let b = of_char c :: 8 word in
      if of_char CHR ''0'' \<le> b \<and> b \<le> of_char CHR ''9'' then Some (b - of_char CHR ''0'')
      else if of_char CHR ''a'' \<le> b \<and> b \<le> of_char CHR ''f'' then Some (b - of_char CHR ''a'' + 10)
      else if of_char CHR ''A'' \<le> b \<and> b \<le> of_char CHR ''F'' then Some (b - of_char CHR ''A'' + 10)
      else None)"

fun hex_Decode :: "string \<Rightarrow> hex_error + 8 word list" where
  "hex_Decode [] = Inr []"
| "hex_Decode [p] = Inl ErrLength"
| "hex_Decode (p # q # src) =
     (case fromHexChar p of
        None \<Rightarrow> Inl (InvalidByteError p)
      | Some a \<Rightarrow>
          (case fromHexChar q of
             None \<Rightarrow> Inl (InvalidByteError q)
           | Some b \<Rightarrow>
               (case hex_Decode src of
                  Inl err \<Rightarrow> Inl err
                | Inr dst \<Rightarrow> Inr ((push_bit 4 a OR b) # dst))))"

definition ObjectIDFromHex :: "string \<Rightarrow> ObjectID \<times> hex_error option" where
  "ObjectIDFromHex s =
     (if length s \<noteq> 24 then (NilObjectID, Some ErrInvalidHex)
      else case hex_Decode s of
        Inl err \<Rightarrow> (NilObjectID, Some err)
      | Inr oid \<Rightarrow> (oid, None))"

definition hextable :: string where
  "hextable = ''0123456789abcdef''"

fun hex_Encode :: "8 word list \<Rightarrow> string" where
  "hex_Encode [] = []"
| "hex_Encode (v # src) =
     hextable ! unat (drop_bit 4 v) # hextable ! unat (v AND 15) # hex_Encode src"

definition Hex :: "ObjectID \<Rightarrow> string" where
  "Hex id' = hex_Encode id'"

text \<open>The repository's conversion: the error of \<open>ObjectIDFromHex\<close> is dropped.\<close>

definition ObjectID :: "string \<Rightarrow> ObjectID" where
  "ObjectID domainID = (case ObjectIDFromHex domainID of (objectID, _) \<Rightarrow> objectID)"

text \<open>A string that represents an identifier: 24 hexadecimal digits.\<close>

definition is_hex_digit :: "char \<Rightarrow> bool" where
  "is_hex_digit c = (c \<in> set ''0123456789abcdefABCDEF'')"

definition valid_hex24 :: "string \<Rightarrow> bool" where
  "valid_hex24 s = (length s = 24 \<and> list_all is_hex_digit s)"

section \<open>Test doubles\<close>

text \<open>
  A driver vocabulary over errors named by their text, in which a cancellation is also a
  timeout, and a mock of the storage interface whose \<open>i\<close>-th call returns \<open>script i\<close>
  and whose world is the number of calls made so far.
\<close>

definition example_classifier :: "string classifier" where
  "example_classifier =
     \<lparr>is_Canceled = (\<lambda>e. e = Base ''context canceled''),
      is_ErrClientDisconnected = (\<lambda>e. e = Base ''client is disconnected''),
      IsTimeout = (\<lambda>e. e = Base ''timeout'' \<or> e = Base ''context canceled''),
      IsNetworkError = (\<lambda>e. e = Base ''network error''),
      is_RetryablePoolError = (\<lambda>e. e = Base ''pool error''),
      as_WaitQueueTimeoutError = (\<lambda>e. e = Base ''wait queue timeout'')\<rparr>"

definition scripted_mock ::
  "(nat \<Rightarrow> string error option) \<Rightarrow> (unit, unit, string, nat) StorageReaderWriter" where
  "scripted_mock script =
     \<lparr>FindOne = (\<lambda>ctx collection flt dest n. (script (n + 1), n + 1)),
      FindAll = (\<lambda>ctx collection flt dest n. (script (n + 1), n + 1)),
      FindMany = (\<lambda>ctx collection flt limit offset srt dest n.
                   ((of_nat (100 + n + 1), script (n + 1)), n + 1)),
      RunInTransaction = (\<lambda>ctx fn n. (script (n + 1), n + 1)),
      Insert = (\<lambda>ctx collection document n. (script (n + 1), n + 1)),
      Update = (\<lambda>ctx collection docID update n. ((0, script (n + 1)), n + 1)),
      Upsert = (\<lambda>ctx collection docID update n. ((0, script (n + 1)), n + 1)),
      Delete = (\<lambda>ctx collection docID n. ((0, script (n + 1)), n + 1)),
      DeleteMany = (\<lambda>ctx collection flt n. ((0, script (n + 1)), n + 1)),
      GetDatabaseName = (\<lambda>n. ''test-database'')\<rparr>"

text \<open>
  Session primitives that record their calls in the world, with the results of
  \<open>StartTransaction\<close>, \<open>CommitTransaction\<close> and \<open>AbortTransaction\<close> given.
\<close>

definition scripted_session ::
  "string error option \<Rightarrow> string error option \<Rightarrow> string error option
     \<Rightarrow> (unit, string, string list) Session" where
  "scripted_session startErr commitErr abortErr =
     \<lparr>StartSession = (\<lambda>opts log. (None, log @ [''StartSession''])),
      EndSession = (\<lambda>ctx log. log @ [''EndSession'']),
      NewSessionContext = (\<lambda>ctx. ctx),
      StartTransaction = (\<lambda>log. (startErr, log @ [''StartTransaction''])),
      CommitTransaction = (\<lambda>ctx log. (commitErr, log @ [''CommitTransaction''])),
      AbortTransaction = (\<lambda>ctx log. (abortErr, log @ [''AbortTransaction'']))\<rparr>"

text \<open>A store in which no call fails by itself.\<close>

definition no_faults :: "string faults" where
  "no_faults =
     \<lparr>count_fault = None, find_fault = None, next_fault = None,
      negative_skip = Base ''skip value must be non-negative''\<rparr>"

text \<open>
  A store of people, each document an age: a filter selects the ages from it upwards, every
  field orders by the age, and an element of the destination is a name with an age, of
  which a document sets the age only.
\<close>

definition age_store :: "nat list \<Rightarrow> string \<Rightarrow> (unit, nat, string \<times> nat, string) Collection" where
  "age_store ages =
     mem_database (\<lambda>flt d. flt \<le> d) (\<lambda>F d. d) (\<lambda>d (name, age). (name, d)) ('''', 0) no_faults
       (\<lambda>collection. ages)"

section \<open>Properties of the retry loop\<close>

lemma sleeps_append: "sleeps (xs @ ys) = sleeps xs @ sleeps ys"
  by (induction xs rule: sleeps.induct) simp_all

lemma calls_append: "calls (xs @ ys) = calls xs + calls ys"
  by (induction xs rule: calls.induct) simp_all

lemma after_calls_shift: "after_calls f (snd (f w)) n = after_calls f w (Suc n)"
  by (induction n) simp_all

lemma retry_loop_exhausted:
  "attempt > maxRetries \<Longrightarrow>
   retry_loop cl fn attempt err w tr = (errors_Wrap err ''exceeded retry limit'', w, tr)"
  by simp

lemma retry_loop_success:
  "attempt \<le> maxRetries \<Longrightarrow> fn w = (None, w') \<Longrightarrow>
   retry_loop cl fn attempt err w tr = (None, w', tr @ [Called])"
  by simp

lemma retry_loop_canceled:
  "attempt \<le> maxRetries \<Longrightarrow> fn w = (Some e, w') \<Longrightarrow> is_Canceled cl e \<Longrightarrow>
   retry_loop cl fn attempt err w tr = (Some e, w', tr @ [Called])"
  by simp

lemma retry_loop_unrecognized:
  "attempt \<le> maxRetries \<Longrightarrow> fn w = (Some e, w') \<Longrightarrow> \<not> is_Canceled cl e \<Longrightarrow>
   \<not> is_ErrClientDisconnected cl e \<Longrightarrow> \<not> IsTimeout cl e \<Longrightarrow> \<not> IsNetworkError cl e \<Longrightarrow>
   \<not> is_RetryablePoolError cl e \<Longrightarrow> \<not> as_WaitQueueTimeoutError cl e \<Longrightarrow>
   retry_loop cl fn attempt err w tr = (Some e, w', tr @ [Called])"
  by simp

lemma retry_loop_transient:
  assumes "attempt \<le> maxRetries" "fn w = (Some e, w')" "recognized_transient cl (Some e)"
  shows "\<exists>msg. retry_loop cl fn attempt err w tr =
           retry_loop cl fn (attempt + 1) (Some e) w'
             (tr @ [Called, Info msg attempt e, Sleep (10 * attempt * Millisecond)])"
  using assms by (auto simp: recognized_transient_def)


declare retry_loop.simps [simp del]

lemma retry_loop_transients:
  assumes "\<forall>i<n. recognized_transient cl (fst (fn (after_calls fn w i)))"
    and "a + int n \<le> maxRetries + 1"
  shows "\<exists>evs. retry_loop cl fn a err w tr =
           retry_loop cl fn (a + int n)
             (if n = 0 then err else fst (fn (after_calls fn w (n - 1))))
             (after_calls fn w n) (tr @ evs) \<and>
           sleeps evs = map (\<lambda>i. 10 * (a + int i) * Millisecond) [0..<n] \<and>
           calls evs = n"
  using assms
proof (induction n)
  case 0
  show ?case by (rule exI [of _ "[]"]) simp
next
  case (Suc n)
  from Suc.prems have le: "a + int n \<le> maxRetries" by simp
  from Suc.prems have tr_n: "recognized_transient cl (fst (fn (after_calls fn w n)))" by simp
  then obtain e where e: "fst (fn (after_calls fn w n)) = Some e"
    by (auto simp: recognized_transient_def split: option.splits)
  then have fn_n: "fn (after_calls fn w n) = (Some e, after_calls fn w (Suc n))"
    by (simp add: prod_eq_iff)
  from Suc.IH Suc.prems obtain evs where
    run: "retry_loop cl fn a err w tr =
            retry_loop cl fn (a + int n)
              (if n = 0 then err else fst (fn (after_calls fn w (n - 1))))
              (after_calls fn w n) (tr @ evs)"
    and sl: "sleeps evs = map (\<lambda>i. 10 * (a + int i) * Millisecond) [0..<n]"
    and ca: "calls evs = n"
    by auto
  from retry_loop_transient [where fn = fn and w = "after_calls fn w n", OF le fn_n] tr_n e
  obtain msg where
    step: "retry_loop cl fn (a + int n)
             (if n = 0 then err else fst (fn (after_calls fn w (n - 1))))
             (after_calls fn w n) (tr @ evs) =
           retry_loop cl fn (a + int n + 1) (Some e) (after_calls fn w (Suc n))
             ((tr @ evs) @ [Called, Info msg (a + int n) e, Sleep (10 * (a + int n) * Millisecond)])"
    by fastforce
  let ?evs = "evs @ [Called, Info msg (a + int n) e, Sleep (10 * (a + int n) * Millisecond)]"
  have "retry_loop cl fn a err w tr =
          retry_loop cl fn (a + int (Suc n))
            (if Suc n = 0 then err else fst (fn (after_calls fn w (Suc n - 1))))
            (after_calls fn w (Suc n)) (tr @ ?evs)"
    using run step e by (simp add: ac_simps)
  moreover have "sleeps ?evs = map (\<lambda>i. 10 * (a + int i) * Millisecond) [0..<Suc n]"
    using sl by (simp add: sleeps_append)
  moreover have "calls ?evs = Suc n"
    using ca by (simp add: calls_append)
  ultimately show ?case by blast
qed

lemma retry_succeeds_at:
  assumes "1 \<le> k" "k \<le> 10"
    and "\<forall>i\<in>{1..<k}. recognized_transient cl (call_result fn w i)"
    and "call_result fn w k = None"
  shows "\<exists>evs. retry cl fn w = (None, after_calls fn w k, evs) \<and>
           sleeps evs = map (\<lambda>i. 10 * int i * Millisecond) [1..<k] \<and> calls evs = k"
proof -
  obtain n where k: "k = Suc n" using assms(1) by (cases k) auto
  have tr: "\<forall>i<n. recognized_transient cl (fst (fn (after_calls fn w i)))"
  proof (intro allI impI)
    fix i assume "i < n"
    then have "Suc i \<in> {1..<k}" using k by simp
    with assms(3) have "recognized_transient cl (call_result fn w (Suc i))" by blast
    then show "recognized_transient cl (fst (fn (after_calls fn w i)))"
      by (simp add: call_result_def)
  qed
  have bound: "1 + int n \<le> maxRetries + 1" using assms(2) k by (simp add: maxRetries_def)
  from retry_loop_transients [OF tr bound, of None "[]"] obtain evs where
    run: "retry cl fn w = retry_loop cl fn (1 + int n)
            (if n = 0 then None else fst (fn (after_calls fn w (n - 1)))) (after_calls fn w n) evs"
    and sl: "sleeps evs = map (\<lambda>i. 10 * (1 + int i) * Millisecond) [0..<n]"
    and ca: "calls evs = n"
    by (auto simp: retry_def)
  have "fn (after_calls fn w n) = (None, after_calls fn w k)"
    using assms(4) k by (simp add: call_result_def prod_eq_iff)
  moreover have "1 + int n \<le> maxRetries" using assms(2) k by (simp add: maxRetries_def)
  ultimately have fin: "retry cl fn w = (None, after_calls fn w k, evs @ [Called])"
    using run by (simp add: retry_loop_success)
  have "map (\<lambda>i. 10 * (1 + int i) * Millisecond) [0..<n] = map (\<lambda>i. 10 * int i * Millisecond) [1..<k]"
    unfolding k by (simp add: map_Suc_upt [symmetric] del: upt_Suc)
  with sl have "sleeps (evs @ [Called]) = map (\<lambda>i. 10 * int i * Millisecond) [1..<k]"
    by (simp add: sleeps_append)
  moreover have "calls (evs @ [Called]) = k" using ca k by (simp add: calls_append)
  ultimately show ?thesis using fin by blast
qed


lemma retry_exhausts:
  assumes "\<forall>i\<in>{1..10}. recognized_transient cl (call_result fn w i)"
  shows "\<exists>evs. retry cl fn w =
           (errors_Wrap (call_result fn w 10) ''exceeded retry limit'', after_calls fn w 10, evs) \<and>
           sleeps evs = map (\<lambda>i. 10 * int i * Millisecond) [1..<11] \<and> calls evs = 10"
proof -
  have tr: "\<forall>i<10. recognized_transient cl (fst (fn (after_calls fn w i)))"
  proof (intro allI impI)
    fix i :: nat assume "i < 10"
    then have "Suc i \<in> {1..10}" by simp
    with assms have "recognized_transient cl (call_result fn w (Suc i))" by blast
    then show "recognized_transient cl (fst (fn (after_calls fn w i)))"
      by (simp add: call_result_def)
  qed
  have bound: "1 + int 10 \<le> maxRetries + 1" by (simp add: maxRetries_def)
  from retry_loop_transients [OF tr bound, of None "[]"] obtain evs where
    run: "retry cl fn w = retry_loop cl fn 11 (call_result fn w 10) (after_calls fn w 10) evs"
    and sl: "sleeps evs = map (\<lambda>i. 10 * (1 + int i) * Millisecond) [0..<10]"
    and ca: "calls evs = 10"
    by (auto simp: retry_def call_result_def)
  have "retry cl fn w =
          (errors_Wrap (call_result fn w 10) ''exceeded retry limit'', after_calls fn w 10, evs)"
    using run by (simp add: retry_loop_exhausted maxRetries_def)
  moreover have "map (\<lambda>i. 10 * (1 + int i) * Millisecond) [0..<10] =
      map (\<lambda>i. 10 * int i * Millisecond) [1..<11]"
    by (simp add: upt_rec)
  ultimately show ?thesis using sl ca by auto
qed

lemma retry_loop_extends_trace:
  "\<exists>evs. snd (snd (retry_loop cl fn attempt err w tr)) = tr @ evs"
proof (induction cl fn attempt err w tr rule: retry_loop.induct)
  case (1 cl fn attempt err w tr)
  show ?case
  proof (cases "attempt > maxRetries")
    case True
    then show ?thesis by (simp add: retry_loop.simps)
  next
    case False
    obtain r w' where fw: "fn w = (r, w')" by (cases "fn w")
    show ?thesis
    proof (cases r)
      case None
      with False fw show ?thesis by (simp add: retry_loop.simps)
    next
      case (Some e)
      note IH = "1.IH" [OF False fw [symmetric] Some]
      show ?thesis
        using False fw Some IH
        by (subst retry_loop.simps) auto
    qed
  qed
qed


lemma FindMany_closure_after_calls:
  "after_calls (FindMany_closure call) (w, t0) n =
     (after_calls call w n, if n = 0 then t0 else fst (call_result call w n))"
  by (induction n) (simp_all add: FindMany_closure_def call_result_def split: prod.splits)

lemma FindMany_closure_call_result:
  "call_result (FindMany_closure call) (w, t0) i = snd (call_result call w i)"
  by (simp add: call_result_def FindMany_closure_after_calls)
     (simp add: FindMany_closure_def split: prod.splits)

text \<open>
  C3. When the first upstream call of a read operation fails with an error that is no
  cancellation and matches none of the five retried categories, the decorator returns that
  very error, not wrapped; the upstream has been called once and nothing was logged or
  slept (the trace is the one call).
\<close>

theorem unrecognized_error_returned_unchanged:
  assumes "\<not> is_Canceled cl e" and "\<not> is_ErrClientDisconnected cl e" and "\<not> IsTimeout cl e"
    and "\<not> IsNetworkError cl e" and "\<not> is_RetryablePoolError cl e"
    and "\<not> as_WaitQueueTimeoutError cl e"
  shows "(FindOne up ctx coll flt dest w = (Some e, w') \<longrightarrow>
           RetryingStorage_FindOne cl up ctx coll flt dest w = (Some e, w', [Called])) \<and>
         (FindAll up ctx coll flt dest w = (Some e, w') \<longrightarrow>
           RetryingStorage_FindAll cl up ctx coll flt dest w = (Some e, w', [Called])) \<and>
         (FindMany up ctx coll flt lim off srt dest w = ((t, Some e), w') \<longrightarrow>
           RetryingStorage_FindMany cl up ctx coll flt lim off srt dest w =
             ((t, Some e), w', [Called]))"
  using assms
  by (simp add: RetryingStorage_FindOne_def RetryingStorage_FindAll_def
      RetryingStorage_FindMany_def retry_def FindMany_closure_def retry_loop_unrecognized
      maxRetries_def)

lemma scripted_after_calls:
  "after_calls (\<lambda>n. (g n, Suc n)) w i = w + i"
  by (induction i) simp_all

lemma scripted_FindOne:
  "after_calls (FindOne (scripted_mock script) ctx coll flt dest) w i = w + i"
  "call_result (FindOne (scripted_mock script) ctx coll flt dest) w i = script (w + (i - 1) + 1)"
  by (simp_all add: scripted_mock_def scripted_after_calls call_result_def)

lemma scripted_FindAll:
  "after_calls (FindAll (scripted_mock script) ctx coll flt dest) w i = w + i"
  "call_result (FindAll (scripted_mock script) ctx coll flt dest) w i = script (w + (i - 1) + 1)"
  by (simp_all add: scripted_mock_def scripted_after_calls call_result_def)

lemma scripted_FindMany:
  "after_calls (FindMany (scripted_mock script) ctx coll flt lim off srt dest) w i = w + i"
  "call_result (FindMany (scripted_mock script) ctx coll flt lim off srt dest) w i =
     (of_nat (100 + (w + (i - 1)) + 1), script (w + (i - 1) + 1))"
  by (simp_all add: scripted_mock_def scripted_after_calls call_result_def)

theorem unrecognized_error_returned_unchanged_witness:
  "RetryingStorage_FindOne example_classifier (scripted_mock (\<lambda>i. Some (Base ''not found'')))
     () ''users'' () () 0 = (Some (Base ''not found''), 1, [Called]) \<and>
   RetryingStorage_FindAll example_classifier (scripted_mock (\<lambda>i. Some (Base ''not found'')))
     () ''users'' () () 0 = (Some (Base ''not found''), 1, [Called]) \<and>
   RetryingStorage_FindMany example_classifier (scripted_mock (\<lambda>i. Some (Base ''not found'')))
     () ''users'' () 10 0 ''-age'' () 0 = ((101, Some (Base ''not found'')), 1, [Called])"
  using unrecognized_error_returned_unchanged
    [of example_classifier "Base ''not found''" "scripted_mock (\<lambda>i. Some (Base ''not found''))"
      "()" "''users''" "()" "()" 0 1 10 0 "''-age''" 101]
  by (simp add: example_classifier_def scripted_mock_def)

text \<open>
  C4. When the first upstream call of a read operation fails with a cancellation, the
  decorator returns that error as it is, whatever else the error matches; the upstream has
  been called once and nothing was logged or slept.
\<close>

theorem cancellation_returned_immediately:
  assumes "is_Canceled cl e"
  shows "(FindOne up ctx coll flt dest w = (Some e, w') \<longrightarrow>
           RetryingStorage_FindOne cl up ctx coll flt dest w = (Some e, w', [Called])) \<and>
         (FindAll up ctx coll flt dest w = (Some e, w') \<longrightarrow>
           RetryingStorage_FindAll cl up ctx coll flt dest w = (Some e, w', [Called])) \<and>
         (FindMany up ctx coll flt lim off srt dest w = ((t, Some e), w') \<longrightarrow>
           RetryingStorage_FindMany cl up ctx coll flt lim off srt dest w =
             ((t, Some e), w', [Called]))"
  using assms
  by (simp add: RetryingStorage_FindOne_def RetryingStorage_FindAll_def
      RetryingStorage_FindMany_def retry_def FindMany_closure_def retry_loop_canceled
      maxRetries_def)

theorem cancellation_returned_immediately_witness:
  "IsTimeout example_classifier (Base ''context canceled'') \<and>
   RetryingStorage_FindOne example_classifier (scripted_mock (\<lambda>i. Some (Base ''context canceled'')))
     () ''users'' () () 0 = (Some (Base ''context canceled''), 1, [Called]) \<and>
   RetryingStorage_FindAll example_classifier (scripted_mock (\<lambda>i. Some (Base ''context canceled'')))
     () ''users'' () () 0 = (Some (Base ''context canceled''), 1, [Called]) \<and>
   RetryingStorage_FindMany example_classifier (scripted_mock (\<lambda>i. Some (Base ''context canceled'')))
     () ''users'' () 10 0 ''-age'' () 0 = ((101, Some (Base ''context canceled'')), 1, [Called])"
  using cancellation_returned_immediately
    [of example_classifier "Base ''context canceled''"
      "scripted_mock (\<lambda>i. Some (Base ''context canceled''))"
      "()" "''users''" "()" "()" 0 1 10 0 "''-age''" 101]
  by (simp add: example_classifier_def scripted_mock_def)

text \<open>
  C5. The write operations and \<open>RunInTransaction\<close> of the decorator are the upstream's
  own functions: no retry loop is around them. So a decorated call is one upstream call:
  it returns what that call returns, whatever it is, and leaves the world that call leaves.
\<close>

theorem writes_pass_through:
  "RetryingStorage_RunInTransaction up = RunInTransaction up \<and>
   RetryingStorage_Insert up = Insert up \<and>
   RetryingStorage_Update up = Update up \<and>
   RetryingStorage_Upsert up = Upsert up \<and>
   RetryingStorage_Delete up = Delete up \<and>
   RetryingStorage_DeleteMany up = DeleteMany up \<and>
   RetryingStorage_RunInTransaction up ctx fn w =
     (call_result (RunInTransaction up ctx fn) w 1, after_calls (RunInTransaction up ctx fn) w 1) \<and>
   RetryingStorage_Insert up ctx coll doc w =
     (call_result (Insert up ctx coll doc) w 1, after_calls (Insert up ctx coll doc) w 1) \<and>
   RetryingStorage_Update up ctx coll docID upd w =
     (call_result (Update up ctx coll docID upd) w 1, after_calls (Update up ctx coll docID upd) w 1) \<and>
   RetryingStorage_Upsert up ctx coll flt upd w =
     (call_result (Upsert up ctx coll flt upd) w 1, after_calls (Upsert up ctx coll flt upd) w 1) \<and>
   RetryingStorage_Delete up ctx coll docID w =
     (call_result (Delete up ctx coll docID) w 1, after_calls (Delete up ctx coll docID) w 1) \<and>
   RetryingStorage_DeleteMany up ctx coll flt w =
     (call_result (DeleteMany up ctx coll flt) w 1, after_calls (DeleteMany up ctx coll flt) w 1)"
proof -
  have same:
    "RetryingStorage_RunInTransaction up = RunInTransaction up"
    "RetryingStorage_Insert up = Insert up"
    "RetryingStorage_Update up = Update up"
    "RetryingStorage_Upsert up = Upsert up"
    "RetryingStorage_Delete up = Delete up"
    "RetryingStorage_DeleteMany up = DeleteMany up"
    by (intro ext, simp add: RetryingStorage_RunInTransaction_def RetryingStorage_Insert_def
        RetryingStorage_Update_def RetryingStorage_Upsert_def RetryingStorage_Delete_def
        RetryingStorage_DeleteMany_def)+
  have once: "f v = (call_result f v 1, after_calls f v 1)" for f :: "'s \<Rightarrow> 'r \<times> 's" and v
    by (simp add: call_result_def)
  show ?thesis
    unfolding same by (intro conjI refl once)
qed

text \<open>
  C1. When each of the first ten upstream calls of a read operation fails with an error the
  loop recognizes as transient, the decorator returns \<open>errors.Wrap\<close> of the tenth call's
  error with the message "exceeded retry limit"; unwrapping it (the stack layer, then the
  message layer) gives the tenth call's error. The world is the one ten upstream calls
  leave, and the trace holds ten calls: there is no eleventh.
\<close>

theorem retry_limit_exhausted_wraps_last_error:
  "((\<forall>i\<in>{1..10}. recognized_transient cl (call_result (FindOne up ctx coll flt dest) w i)) \<longrightarrow>
      (case RetryingStorage_FindOne cl up ctx coll flt dest w of (err, w', tr) \<Rightarrow>
         err = errors_Wrap (call_result (FindOne up ctx coll flt dest) w 10) ''exceeded retry limit'' \<and>
         err \<noteq> None \<and>
         Option.bind (Option.bind err Unwrap) Unwrap = call_result (FindOne up ctx coll flt dest) w 10 \<and>
         w' = after_calls (FindOne up ctx coll flt dest) w 10 \<and> calls tr = 10)) \<and>
   ((\<forall>i\<in>{1..10}. recognized_transient cl (call_result (FindAll up ctx coll flt dest) w i)) \<longrightarrow>
      (case RetryingStorage_FindAll cl up ctx coll flt dest w of (err, w', tr) \<Rightarrow>
         err = errors_Wrap (call_result (FindAll up ctx coll flt dest) w 10) ''exceeded retry limit'' \<and>
         err \<noteq> None \<and>
         Option.bind (Option.bind err Unwrap) Unwrap = call_result (FindAll up ctx coll flt dest) w 10 \<and>
         w' = after_calls (FindAll up ctx coll flt dest) w 10 \<and> calls tr = 10)) \<and>
   ((\<forall>i\<in>{1..10}. recognized_transient cl
        (snd (call_result (FindMany up ctx coll flt lim off srt dest) w i))) \<longrightarrow>
      (case RetryingStorage_FindMany cl up ctx coll flt lim off srt dest w of ((t, err), w', tr) \<Rightarrow>
         err = errors_Wrap (snd (call_result (FindMany up ctx coll flt lim off srt dest) w 10))
                 ''exceeded retry limit'' \<and>
         err \<noteq> None \<and>
         Option.bind (Option.bind err Unwrap) Unwrap =
           snd (call_result (FindMany up ctx coll flt lim off srt dest) w 10) \<and>
         w' = after_calls (FindMany up ctx coll flt lim off srt dest) w 10 \<and> calls tr = 10))"
proof -
  have wrap: "err = errors_Wrap r ''exceeded retry limit'' \<Longrightarrow> recognized_transient cl r \<Longrightarrow>
      err \<noteq> None \<and> Option.bind (Option.bind err Unwrap) Unwrap = r" for err r :: "'a error option"
    by (cases r) (simp_all add: errors_Wrap_def recognized_transient_def)
  have generic: "case retry cl fn v of (err, v', tr) \<Rightarrow>
      err = errors_Wrap (call_result fn v 10) ''exceeded retry limit'' \<and> err \<noteq> None \<and>
      Option.bind (Option.bind err Unwrap) Unwrap = call_result fn v 10 \<and>
      v' = after_calls fn v 10 \<and> calls tr = 10"
    if "\<forall>i\<in>{1..10}. recognized_transient cl (call_result fn v i)"
    for fn :: "'s \<Rightarrow> 'a error option \<times> 's" and v
  proof -
    from that have last: "recognized_transient cl (call_result fn v 10)" by simp
    from retry_exhausts [OF that] obtain evs where
      run: "retry cl fn v =
          (errors_Wrap (call_result fn v 10) ''exceeded retry limit'', after_calls fn v 10, evs)"
      and ca: "calls evs = 10"
      by blast
    from wrap [OF refl last] run ca show ?thesis by simp
  qed
  have one: "case RetryingStorage_FindOne cl up ctx coll flt dest w of (err, w', tr) \<Rightarrow>
         err = errors_Wrap (call_result (FindOne up ctx coll flt dest) w 10) ''exceeded retry limit'' \<and>
         err \<noteq> None \<and>
         Option.bind (Option.bind err Unwrap) Unwrap = call_result (FindOne up ctx coll flt dest) w 10 \<and>
         w' = after_calls (FindOne up ctx coll flt dest) w 10 \<and> calls tr = 10"
    if "\<forall>i\<in>{1..10}. recognized_transient cl (call_result (FindOne up ctx coll flt dest) w i)"
    unfolding RetryingStorage_FindOne_def using that by (rule generic)
  have all: "case RetryingStorage_FindAll cl up ctx coll flt dest w of (err, w', tr) \<Rightarrow>
         err = errors_Wrap (call_result (FindAll up ctx coll flt dest) w 10) ''exceeded retry limit'' \<and>
         err \<noteq> None \<and>
         Option.bind (Option.bind err Unwrap) Unwrap = call_result (FindAll up ctx coll flt dest) w 10 \<and>
         w' = after_calls (FindAll up ctx coll flt dest) w 10 \<and> calls tr = 10"
    if "\<forall>i\<in>{1..10}. recognized_transient cl (call_result (FindAll up ctx coll flt dest) w i)"
    unfolding RetryingStorage_FindAll_def using that by (rule generic)
  have many: "case RetryingStorage_FindMany cl up ctx coll flt lim off srt dest w of ((t, err), w', tr) \<Rightarrow>
         err = errors_Wrap (snd (call_result (FindMany up ctx coll flt lim off srt dest) w 10))
                 ''exceeded retry limit'' \<and>
         err \<noteq> None \<and>
         Option.bind (Option.bind err Unwrap) Unwrap =
           snd (call_result (FindMany up ctx coll flt lim off srt dest) w 10) \<and>
         w' = after_calls (FindMany up ctx coll flt lim off srt dest) w 10 \<and> calls tr = 10"
    if h: "\<forall>i\<in>{1..10}. recognized_transient cl
        (snd (call_result (FindMany up ctx coll flt lim off srt dest) w i))"
  proof -
    let ?call = "FindMany up ctx coll flt lim off srt dest"
    from h have "\<forall>i\<in>{1..10}. recognized_transient cl (call_result (FindMany_closure ?call) (w, 0) i)"
      by (simp add: FindMany_closure_call_result)
    from generic [OF this] show ?thesis
      by (simp add: RetryingStorage_FindMany_def FindMany_closure_call_result
          FindMany_closure_after_calls split: prod.splits)
  qed
  show ?thesis
    by (intro conjI impI one all many)
qed


theorem retry_limit_exhausted_wraps_last_error_witness:
  "list_all (\<lambda>i. recognized_transient example_classifier
       (call_result (FindOne (scripted_mock (\<lambda>i. Some (Base ''timeout''))) () ''users'' () ()) 0 i))
     [1..<11] \<and>
   fst (RetryingStorage_FindOne example_classifier (scripted_mock (\<lambda>i. Some (Base ''timeout'')))
          () ''users'' () () 0) =
     Some (WithStack (WithMessage (Base ''timeout'') ''exceeded retry limit'')) \<and>
   fst (snd (RetryingStorage_FindOne example_classifier (scripted_mock (\<lambda>i. Some (Base ''timeout'')))
          () ''users'' () () 0)) = 10 \<and>
   fst (RetryingStorage_FindAll example_classifier (scripted_mock (\<lambda>i. Some (Base ''timeout'')))
          () ''users'' () () 0) =
     Some (WithStack (WithMessage (Base ''timeout'') ''exceeded retry limit'')) \<and>
   fst (snd (RetryingStorage_FindAll example_classifier (scripted_mock (\<lambda>i. Some (Base ''timeout'')))
          () ''users'' () () 0)) = 10 \<and>
   snd (fst (RetryingStorage_FindMany example_classifier (scripted_mock (\<lambda>i. Some (Base ''timeout'')))
          () ''users'' () 10 0 ''-age'' () 0)) =
     Some (WithStack (WithMessage (Base ''timeout'') ''exceeded retry limit'')) \<and>
   fst (snd (RetryingStorage_FindMany example_classifier (scripted_mock (\<lambda>i. Some (Base ''timeout'')))
          () ''users'' () 10 0 ''-age'' () 0)) = 10"
  using retry_limit_exhausted_wraps_last_error
    [of example_classifier "scripted_mock (\<lambda>i. Some (Base ''timeout''))"
      "()" "''users''" "()" "()" 0 10 0 "''-age''"]
  by (simp add: scripted_FindOne scripted_FindAll scripted_FindMany recognized_transient_def
      example_classifier_def errors_Wrap_def case_prod_unfold list_all_iff)

text \<open>
  C2. For \<open>k\<close> from 1 to 10: when the first \<open>k - 1\<close> upstream calls of a read operation
  fail with errors the loop recognizes as transient and the \<open>k\<close>-th succeeds, the decorator
  returns \<open>nil\<close> (and, for \<open>FindMany\<close>, the total of the \<open>k\<close>-th call); the world is the one
  \<open>k\<close> upstream calls leave and the trace holds \<open>k\<close> calls.
\<close>

theorem success_on_kth_attempt:
  assumes "1 \<le> k" and "k \<le> 10"
  shows
  "((\<forall>i\<in>{1..<k}. recognized_transient cl (call_result (FindOne up ctx coll flt dest) w i)) \<and>
    call_result (FindOne up ctx coll flt dest) w k = None \<longrightarrow>
      (case RetryingStorage_FindOne cl up ctx coll flt dest w of (err, w', tr) \<Rightarrow>
         err = None \<and> w' = after_calls (FindOne up ctx coll flt dest) w k \<and> calls tr = k)) \<and>
   ((\<forall>i\<in>{1..<k}. recognized_transient cl (call_result (FindAll up ctx coll flt dest) w i)) \<and>
    call_result (FindAll up ctx coll flt dest) w k = None \<longrightarrow>
      (case RetryingStorage_FindAll cl up ctx coll flt dest w of (err, w', tr) \<Rightarrow>
         err = None \<and> w' = after_calls (FindAll up ctx coll flt dest) w k \<and> calls tr = k)) \<and>
   ((\<forall>i\<in>{1..<k}. recognized_transient cl
        (snd (call_result (FindMany up ctx coll flt lim off srt dest) w i))) \<and>
    snd (call_result (FindMany up ctx coll flt lim off srt dest) w k) = None \<longrightarrow>
      (case RetryingStorage_FindMany cl up ctx coll flt lim off srt dest w of ((t, err), w', tr) \<Rightarrow>
         err = None \<and> t = fst (call_result (FindMany up ctx coll flt lim off srt dest) w k) \<and>
         w' = after_calls (FindMany up ctx coll flt lim off srt dest) w k \<and> calls tr = k))"
proof -
  have generic: "case retry cl fn v of (err, v', tr) \<Rightarrow>
      err = None \<and> v' = after_calls fn v k \<and> calls tr = k"
    if "\<forall>i\<in>{1..<k}. recognized_transient cl (call_result fn v i)"
      and "call_result fn v k = None"
    for fn :: "'s \<Rightarrow> 'a error option \<times> 's" and v
  proof -
    from retry_succeeds_at [OF assms that] obtain evs where
      "retry cl fn v = (None, after_calls fn v k, evs)" and "calls evs = k"
      by blast
    then show ?thesis by simp
  qed
  have one: "case RetryingStorage_FindOne cl up ctx coll flt dest w of (err, w', tr) \<Rightarrow>
         err = None \<and> w' = after_calls (FindOne up ctx coll flt dest) w k \<and> calls tr = k"
    if "(\<forall>i\<in>{1..<k}. recognized_transient cl (call_result (FindOne up ctx coll flt dest) w i)) \<and>
        call_result (FindOne up ctx coll flt dest) w k = None"
    unfolding RetryingStorage_FindOne_def using that by (intro generic) simp_all
  have all: "case RetryingStorage_FindAll cl up ctx coll flt dest w of (err, w', tr) \<Rightarrow>
         err = None \<and> w' = after_calls (FindAll up ctx coll flt dest) w k \<and> calls tr = k"
    if "(\<forall>i\<in>{1..<k}. recognized_transient cl (call_result (FindAll up ctx coll flt dest) w i)) \<and>
        call_result (FindAll up ctx coll flt dest) w k = None"
    unfolding RetryingStorage_FindAll_def using that by (intro generic) simp_all
  have many: "case RetryingStorage_FindMany cl up ctx coll flt lim off srt dest w of
        ((t, err), w', tr) \<Rightarrow>
         err = None \<and> t = fst (call_result (FindMany up ctx coll flt lim off srt dest) w k) \<and>
         w' = after_calls (FindMany up ctx coll flt lim off srt dest) w k \<and> calls tr = k"
    if h: "(\<forall>i\<in>{1..<k}. recognized_transient cl
        (snd (call_result (FindMany up ctx coll flt lim off srt dest) w i))) \<and>
      snd (call_result (FindMany up ctx coll flt lim off srt dest) w k) = None"
  proof -
    let ?call = "FindMany up ctx coll flt lim off srt dest"
    from h have "\<forall>i\<in>{1..<k}. recognized_transient cl (call_result (FindMany_closure ?call) (w, 0) i)"
      and "call_result (FindMany_closure ?call) (w, 0) k = None"
      by (simp_all add: FindMany_closure_call_result)
    from generic [OF this] assms(1) show ?thesis
      by (simp add: RetryingStorage_FindMany_def FindMany_closure_call_result
          FindMany_closure_after_calls split: prod.splits)
  qed
  show ?thesis
    by (intro conjI impI) (erule one, erule all, erule many)
qed

theorem success_on_kth_attempt_witness:
  "fst (RetryingStorage_FindOne example_classifier
          (scripted_mock (\<lambda>i. if i < 3 then Some (Base ''network error'') else None))
          () ''users'' () () 0) = None \<and>
   fst (snd (RetryingStorage_FindOne example_classifier
          (scripted_mock (\<lambda>i. if i < 3 then Some (Base ''network error'') else None))
          () ''users'' () () 0)) = 3 \<and>
   fst (snd (RetryingStorage_FindAll example_classifier
          (scripted_mock (\<lambda>i. if i < 3 then Some (Base ''network error'') else None))
          () ''users'' () () 0)) = 3 \<and>
   fst (RetryingStorage_FindMany example_classifier
          (scripted_mock (\<lambda>i. if i < 3 then Some (Base ''network error'') else None))
          () ''users'' () 10 0 ''-age'' () 0) = (103, None) \<and>
   fst (snd (RetryingStorage_FindMany example_classifier
          (scripted_mock (\<lambda>i. if i < 3 then Some (Base ''network error'') else None))
          () ''users'' () 10 0 ''-age'' () 0)) = 3"
  using success_on_kth_attempt
    [of 3 example_classifier
      "scripted_mock (\<lambda>i. if i < 3 then Some (Base ''network error'') else None)"
      "()" "''users''" "()" "()" 0 10 0 "''-age''"]
  by (simp add: scripted_FindOne scripted_FindAll scripted_FindMany recognized_transient_def
      example_classifier_def case_prod_unfold prod_eq_iff)

lemma retry_loop_round:
  assumes "attempt \<le> maxRetries" "fn w = (Some e, w')" "recognized_transient cl (Some e)"
  shows "retry_loop cl fn attempt err w tr =
           retry_loop cl fn (attempt + 1) (Some e) w'
             (tr @ [Called, Info (retry_message cl e) attempt e, Sleep (10 * attempt * Millisecond)])"
  using assms
  by (subst retry_loop.simps) (auto simp: recognized_transient_def retry_message_def)

lemma retry_loop_rounds:
  assumes "\<forall>i<n. recognized_transient cl (fst (fn (after_calls fn w i)))"
    and "a + int n \<le> maxRetries + 1"
  shows "retry_loop cl fn a err w tr =
           retry_loop cl fn (a + int n)
             (if n = 0 then err else fst (fn (after_calls fn w (n - 1))))
             (after_calls fn w n)
             (tr @ concat (map (\<lambda>i. case fst (fn (after_calls fn w i)) of
                                   None \<Rightarrow> []
                                 | Some e \<Rightarrow> [Called, Info (retry_message cl e) (a + int i) e,
                                              Sleep (10 * (a + int i) * Millisecond)])
                            [0..<n]))"
  using assms
proof (induction n)
  case 0
  show ?case by simp
next
  case (Suc n)
  from Suc.prems have le: "a + int n \<le> maxRetries" by simp
  from Suc.prems have tr_n: "recognized_transient cl (fst (fn (after_calls fn w n)))" by simp
  then obtain e where e: "fst (fn (after_calls fn w n)) = Some e"
    by (auto simp: recognized_transient_def split: option.splits)
  then have fn_n: "fn (after_calls fn w n) = (Some e, after_calls fn w (Suc n))"
    by (simp add: prod_eq_iff)
  from tr_n e have rec: "recognized_transient cl (Some e)" by simp
  note step = retry_loop_round [where fn = fn and w = "after_calls fn w n", OF le fn_n rec]
  from Suc.IH Suc.prems have "retry_loop cl fn a err w tr =
      retry_loop cl fn (a + int n)
        (if n = 0 then err else fst (fn (after_calls fn w (n - 1))))
        (after_calls fn w n)
        (tr @ concat (map (\<lambda>i. case fst (fn (after_calls fn w i)) of
                              None \<Rightarrow> []
                            | Some e \<Rightarrow> [Called, Info (retry_message cl e) (a + int i) e,
                                         Sleep (10 * (a + int i) * Millisecond)])
                       [0..<n]))"
    by simp
  also note step
  finally show ?case
    using e by (simp add: ac_simps)
qed

lemma retry_loop_calls_first:
  assumes "attempt \<le> maxRetries"
  shows "\<exists>rest. snd (snd (retry_loop cl fn attempt err w tr)) = tr @ Called # rest"
proof -
  obtain r w' where fw: "fn w = (r, w')" by (cases "fn w")
  show ?thesis
  proof (cases "recognized_transient cl r")
    case True
    then obtain e where e: "r = Some e"
      by (auto simp: recognized_transient_def split: option.splits)
    from retry_loop_extends_trace
      [of cl fn "attempt + 1" "Some e" w'
        "tr @ [Called, Info (retry_message cl e) attempt e, Sleep (10 * attempt * Millisecond)]"]
    obtain evs where "snd (snd (retry_loop cl fn (attempt + 1) (Some e) w'
        (tr @ [Called, Info (retry_message cl e) attempt e, Sleep (10 * attempt * Millisecond)]))) =
        (tr @ [Called, Info (retry_message cl e) attempt e, Sleep (10 * attempt * Millisecond)]) @ evs"
      by blast
    then show ?thesis
      using retry_loop_round [where fn = fn and w = w, OF assms fw [unfolded e]] True e by simp
  next
    case False
    then show ?thesis
      using assms fw
      by (subst retry_loop.simps) (auto simp: recognized_transient_def split: option.splits)
  qed
qed

lemma backoff_sleeps:
  assumes "m \<le> 10"
    and "\<forall>i\<in>{1..m}. recognized_transient cl (call_result fn w i)"
  shows "take m (sleeps (snd (snd (retry cl fn w)))) =
           map (\<lambda>n. 10 * int n * Millisecond) [1..<Suc m] \<and>
         (\<forall>n\<in>{1..m}. sleeps (snd (snd (retry cl fn w))) ! (n - 1) = 10 * int n * Millisecond) \<and>
         (m = 10 \<longrightarrow>
            sleeps (snd (snd (retry cl fn w))) = map (\<lambda>n. 10 * int n * Millisecond) [1..<11] \<and>
            sum_list (sleeps (snd (snd (retry cl fn w)))) = 550 * Millisecond)"
proof -
  let ?sl = "sleeps (snd (snd (retry cl fn w)))"
  have tr: "\<forall>i<m. recognized_transient cl (fst (fn (after_calls fn w i)))"
  proof (intro allI impI)
    fix i assume "i < m"
    then have "Suc i \<in> {1..m}" by simp
    with assms(2) have "recognized_transient cl (call_result fn w (Suc i))" by blast
    then show "recognized_transient cl (fst (fn (after_calls fn w i)))"
      by (simp add: call_result_def)
  qed
  have bound: "1 + int m \<le> maxRetries + 1" using assms(1) by (simp add: maxRetries_def)
  from retry_loop_transients [OF tr bound, of None "[]"] obtain evs where
    run: "retry cl fn w = retry_loop cl fn (1 + int m)
            (if m = 0 then None else fst (fn (after_calls fn w (m - 1)))) (after_calls fn w m) evs"
    and sl: "sleeps evs = map (\<lambda>i. 10 * (1 + int i) * Millisecond) [0..<m]"
    by (auto simp: retry_def)
  have shift: "map (\<lambda>i. 10 * (1 + int i) * Millisecond) [0..<m] =
      map (\<lambda>n. 10 * int n * Millisecond) [1..<Suc m]"
    by (simp add: map_Suc_upt [symmetric] del: upt_Suc)
  from retry_loop_extends_trace
    [of cl fn "1 + int m" "if m = 0 then None else fst (fn (after_calls fn w (m - 1)))"
      "after_calls fn w m" evs]
  obtain evs' where "snd (snd (retry_loop cl fn (1 + int m)
      (if m = 0 then None else fst (fn (after_calls fn w (m - 1)))) (after_calls fn w m) evs)) =
      evs @ evs'"
    by (rule exE)
  with run have "snd (snd (retry cl fn w)) = evs @ evs'"
    by (simp only:)
  then have split: "?sl = map (\<lambda>n. 10 * int n * Millisecond) [1..<Suc m] @ sleeps evs'"
    using sl shift by (simp add: sleeps_append)
  then have first: "take m ?sl = map (\<lambda>n. 10 * int n * Millisecond) [1..<Suc m]"
    by simp
  have nth: "\<forall>n\<in>{1..m}. ?sl ! (n - 1) = 10 * int n * Millisecond"
  proof
    fix n assume n: "n \<in> {1..m}"
    then have "?sl ! (n - 1) = map (\<lambda>n. 10 * int n * Millisecond) [1..<Suc m] ! (n - 1)"
      using split by (simp add: nth_append)
    also have "\<dots> = 10 * int n * Millisecond"
    proof -
      from n have lt: "n - 1 < Suc m - 1" and n1: "1 + (n - 1) = n" by auto
      then have "[1..<Suc m] ! (n - 1) = n" by (simp only: nth_upt)
      moreover from lt have "n - 1 < length [1..<Suc m]" by simp
      ultimately show ?thesis by (simp only: nth_map)
    qed
    finally show "?sl ! (n - 1) = 10 * int n * Millisecond" .
  qed
  have full: "?sl = map (\<lambda>n. 10 * int n * Millisecond) [1..<11] \<and>
      sum_list ?sl = 550 * Millisecond" if "m = 10"
  proof -
    from run that have "snd (snd (retry cl fn w)) = evs"
      by (simp add: retry_loop_exhausted maxRetries_def)
    with sl shift that have eq: "?sl = map (\<lambda>n. 10 * int n * Millisecond) [1..<11]"
      by simp
    have "sum_list (map (\<lambda>n. 10 * int n * Millisecond) [1..<11]) = 550 * Millisecond"
      by (simp add: upt_rec)
    with eq show ?thesis by simp
  qed
  from first nth full show ?thesis by blast
qed

lemma backoff_trace:
  assumes "m \<le> 10"
    and "\<forall>i\<in>{1..m}. recognized_transient cl (call_result fn w i)"
  shows "\<exists>rest. snd (snd (retry cl fn w)) =
           concat (map (\<lambda>n. case call_result fn w n of
                               None \<Rightarrow> []
                             | Some e \<Rightarrow> [Called, Info (retry_message cl e) (int n) e,
                                          Sleep (10 * int n * Millisecond)])
                    [1..<Suc m]) @ rest \<and>
           (m < 10 \<longrightarrow> (\<exists>rest'. rest = Called # rest')) \<and>
           (m = 10 \<longrightarrow> rest = [])"
proof -
  let ?round = "\<lambda>n. case call_result fn w n of
                       None \<Rightarrow> []
                     | Some e \<Rightarrow> [Called, Info (retry_message cl e) (int n) e,
                                  Sleep (10 * int n * Millisecond)]"
  let ?rounds = "concat (map ?round [1..<Suc m])"
  have tr: "\<forall>i<m. recognized_transient cl (fst (fn (after_calls fn w i)))"
  proof (intro allI impI)
    fix i assume "i < m"
    then have "Suc i \<in> {1..m}" by simp
    with assms(2) have "recognized_transient cl (call_result fn w (Suc i))" by blast
    then show "recognized_transient cl (fst (fn (after_calls fn w i)))"
      by (simp add: call_result_def)
  qed
  have bound: "1 + int m \<le> maxRetries + 1" using assms(1) by (simp add: maxRetries_def)
  have shift: "map (\<lambda>i. case fst (fn (after_calls fn w i)) of
                       None \<Rightarrow> []
                     | Some e \<Rightarrow> [Called, Info (retry_message cl e) (1 + int i) e,
                                  Sleep (10 * (1 + int i) * Millisecond)]) [0..<m] =
      map ?round [1..<Suc m]"
    by (simp add: map_Suc_upt [symmetric] call_result_def ac_simps del: upt_Suc
        cong: option.case_cong)
  let ?last = "if m = 0 then None else fst (fn (after_calls fn w (m - 1)))"
  from retry_loop_rounds [OF tr bound, of None "[]"] shift
  have run: "retry cl fn w = retry_loop cl fn (1 + int m) ?last (after_calls fn w m) ?rounds"
    by (simp add: retry_def)
  show ?thesis
  proof (cases "m = 10")
    case True
    with run have "snd (snd (retry cl fn w)) = ?rounds @ []"
      by (simp add: retry_loop_exhausted maxRetries_def)
    with True show ?thesis
      by (intro exI [of _ "[]"]) simp
  next
    case False
    with assms(1) have le: "1 + int m \<le> maxRetries" by (simp add: maxRetries_def)
    from retry_loop_calls_first [OF le, of cl fn ?last "after_calls fn w m" ?rounds]
    obtain rest' where "snd (snd (retry_loop cl fn (1 + int m) ?last (after_calls fn w m) ?rounds)) =
        ?rounds @ Called # rest'"
      by (rule exE)
    with run have "snd (snd (retry cl fn w)) = ?rounds @ Called # rest'"
      by (simp only:)
    with False show ?thesis
      by (intro exI [of _ "Called # rest'"]) simp
  qed
qed

text \<open>
  C8. When the first \<open>m\<close> upstream calls (\<open>m\<close> at most 10) fail with errors the loop
  recognizes as transient, of whichever categories, the trace of the loop begins with
  \<open>m\<close> rounds, the \<open>n\<close>-th being: the \<open>n\<close>-th call, the log line of its error with the
  attempt number \<open>n\<close>, and a sleep of \<open>10 * n\<close> milliseconds. What follows the \<open>m\<close>-th
  sleep is the next call when \<open>m\<close> is less than 10, and nothing after ten failures. So the
  sleep after the \<open>n\<close>-th failure, before the next attempt, is \<open>10 * n\<close> ms; the sleeps
  of the loop start with 10 ms, 20 ms, ..., \<open>10 * m\<close> ms, and after ten failures they are
  all the sleeps, 550 ms together.
\<close>

theorem backoff_is_linear:
  assumes "m \<le> 10"
    and "\<forall>i\<in>{1..m}. recognized_transient cl (call_result fn w i)"
  shows "(\<exists>rest. snd (snd (retry cl fn w)) =
            concat (map (\<lambda>n. case call_result fn w n of
                                None \<Rightarrow> []
                              | Some e \<Rightarrow> [Called, Info (retry_message cl e) (int n) e,
                                           Sleep (10 * int n * Millisecond)])
                     [1..<Suc m]) @ rest \<and>
            (m < 10 \<longrightarrow> (\<exists>rest'. rest = Called # rest')) \<and>
            (m = 10 \<longrightarrow> rest = [])) \<and>
         take m (sleeps (snd (snd (retry cl fn w)))) =
           map (\<lambda>n. 10 * int n * Millisecond) [1..<Suc m] \<and>
         (\<forall>n\<in>{1..m}. sleeps (snd (snd (retry cl fn w))) ! (n - 1) = 10 * int n * Millisecond) \<and>
         (m = 10 \<longrightarrow>
            sleeps (snd (snd (retry cl fn w))) = map (\<lambda>n. 10 * int n * Millisecond) [1..<11] \<and>
            sum_list (sleeps (snd (snd (retry cl fn w)))) = 550 * Millisecond)"
  using backoff_trace [OF assms] backoff_sleeps [OF assms] by (rule conjI)

theorem backoff_is_linear_witness:
  "snd (snd (retry example_classifier
     (FindOne (scripted_mock (\<lambda>i. if i < 3 then Some (Base ''timeout'') else None))
        () ''users'' () ()) 0)) =
     [Called, Info ''retrying mongodb timeout'' 1 (Base ''timeout''), Sleep 10000000,
      Called, Info ''retrying mongodb timeout'' 2 (Base ''timeout''), Sleep 20000000,
      Called] \<and>
   sleeps (snd (snd (retry example_classifier
     (FindOne (scripted_mock (\<lambda>i. Some (Base (if even i then ''timeout'' else ''pool error''))))
        () ''users'' () ()) 0))) =
     [10000000, 20000000, 30000000, 40000000, 50000000,
      60000000, 70000000, 80000000, 90000000, 100000000] \<and>
   sum_list (sleeps (snd (snd (retry example_classifier
     (FindOne (scripted_mock (\<lambda>i. Some (Base (if even i then ''timeout'' else ''pool error''))))
        () ''users'' () ()) 0)))) = 550000000"
proof -
  let ?fn = "FindOne (scripted_mock (\<lambda>i. if i < 3 then Some (Base ''timeout'') else None))
        () ''users'' () ()"
  let ?gn = "FindOne (scripted_mock (\<lambda>i. Some (Base (if even i then ''timeout'' else ''pool error''))))
        () ''users'' () ()"
  have run: "snd (snd (retry example_classifier ?fn 0)) =
     [Called, Info ''retrying mongodb timeout'' 1 (Base ''timeout''), Sleep 10000000,
      Called, Info ''retrying mongodb timeout'' 2 (Base ''timeout''), Sleep 20000000,
      Called]"
    by (simp add: retry_def retry_loop.simps scripted_mock_def example_classifier_def
        maxRetries_def Millisecond_def)
  from backoff_is_linear [of 2 example_classifier ?fn 0]
    backoff_is_linear [of 10 example_classifier ?gn 0] run
  show ?thesis
    by (simp add: scripted_FindOne recognized_transient_def example_classifier_def
        Millisecond_def upt_rec)
qed

section \<open>Properties of the storage adapter\<close>

text \<open>
  C7. Once the session has started:
  \<^item> when the transaction starts, \<open>fn\<close> returns \<open>nil\<close> and the commit returns \<open>nil\<close>,
    \<open>RunInTransaction\<close> returns \<open>nil\<close>, the world being the committed one with the session
    ended;
  \<^item> when starting the transaction, \<open>fn\<close> or the commit returns an error, the abort is
    called on the world that failure left: if the abort returns \<open>nil\<close> the result is the
    original error; if the abort fails, the result wraps the abort error (\<open>Unwrap\<close> gives
    it) and its text is the text of the abort error, a space, and the text of the original
    error.
\<close>

theorem RunInTransaction_commits_or_aborts:
  assumes "StartSession sess [DefaultReadConcern ''majority'', DefaultReadPreference ''primary''] w
             = (None, w0)"
  shows
  "(StartTransaction sess w0 = (None, w1) \<and>
    fn (NewSessionContext sess ctx) w1 = (None, w2) \<and>
    CommitTransaction sess (NewSessionContext sess ctx) w2 = (None, w3) \<longrightarrow>
      Storage_RunInTransaction txt sess ctx fn w = (None, EndSession sess ctx w3)) \<and>
   ((StartTransaction sess w0 = (Some e, wfail) \<or>
     StartTransaction sess w0 = (None, w1) \<and>
       fn (NewSessionContext sess ctx) w1 = (Some e, wfail) \<or>
     StartTransaction sess w0 = (None, w1) \<and>
       fn (NewSessionContext sess ctx) w1 = (None, w2) \<and>
       CommitTransaction sess (NewSessionContext sess ctx) w2 = (Some e, wfail)) \<longrightarrow>
      (AbortTransaction sess ctx wfail = (None, wabort) \<longrightarrow>
         Storage_RunInTransaction txt sess ctx fn w = (Some e, EndSession sess ctx wabort)) \<and>
      (AbortTransaction sess ctx wfail = (Some abortErr, wabort) \<longrightarrow>
         (case Storage_RunInTransaction txt sess ctx fn w of (r, w') \<Rightarrow>
            r = Some (WrapError (Error txt abortErr @ '' '' @ Error txt e) abortErr) \<and>
            Option.bind r Unwrap = Some abortErr \<and>
            map_option (Error txt) r = Some (Error txt abortErr @ '' '' @ Error txt e) \<and>
            w' = EndSession sess ctx wabort)))"
  using assms
  by (auto simp: Storage_RunInTransaction_def transaction_body_def Errorf_w_v_def)

theorem RunInTransaction_commits_or_aborts_witness:
  "Storage_RunInTransaction (\<lambda>e. e) (scripted_session None None None) ()
     (\<lambda>ctx log. (None, log @ [''fn''])) [] =
     (None, [''StartSession'', ''StartTransaction'', ''fn'', ''CommitTransaction'', ''EndSession'']) \<and>
   Storage_RunInTransaction (\<lambda>e. e) (scripted_session None None None) ()
     (\<lambda>ctx log. (Some (Base ''boom''), log @ [''fn''])) [] =
     (Some (Base ''boom''),
      [''StartSession'', ''StartTransaction'', ''fn'', ''AbortTransaction'', ''EndSession'']) \<and>
   Storage_RunInTransaction (\<lambda>e. e) (scripted_session None None (Some (Base ''abort failed''))) ()
     (\<lambda>ctx log. (Some (Base ''boom''), log @ [''fn''])) [] =
     (Some (WrapError ''abort failed boom'' (Base ''abort failed'')),
      [''StartSession'', ''StartTransaction'', ''fn'', ''AbortTransaction'', ''EndSession''])"
  using
    RunInTransaction_commits_or_aborts
      [of "scripted_session None None None" "[]" "[''StartSession'']"
        "[''StartSession'', ''StartTransaction'']" "\<lambda>ctx log. (None, log @ [''fn''])" "()"
        "[''StartSession'', ''StartTransaction'', ''fn'']"
        "[''StartSession'', ''StartTransaction'', ''fn'', ''CommitTransaction'']" "\<lambda>e. e"]
    RunInTransaction_commits_or_aborts
      [of "scripted_session None None None" "[]" "[''StartSession'']"
        "[''StartSession'', ''StartTransaction'']"
        "\<lambda>ctx log. (Some (Base ''boom''), log @ [''fn''])" "()" _ _ _
        "Base ''boom''" "[''StartSession'', ''StartTransaction'', ''fn'']"
        "[''StartSession'', ''StartTransaction'', ''fn'', ''AbortTransaction'']"]
    RunInTransaction_commits_or_aborts
      [of "scripted_session None None (Some (Base ''abort failed''))" "[]" "[''StartSession'']"
        "[''StartSession'', ''StartTransaction'']"
        "\<lambda>ctx log. (Some (Base ''boom''), log @ [''fn''])" "()" _ _ "\<lambda>e. e"
        "Base ''boom''" "[''StartSession'', ''StartTransaction'', ''fn'']"
        "[''StartSession'', ''StartTransaction'', ''fn'', ''AbortTransaction'']"
        "Base ''abort failed''"]
  by (simp add: scripted_session_def case_prod_unfold prod_eq_iff)

section \<open>Properties of the identifier conversion\<close>

lemma fromHexChar_nat:
  "fromHexChar c =
     (let n = of_char c :: nat in
      if 48 \<le> n \<and> n \<le> 57 then Some (of_nat (n - 48))
      else if 97 \<le> n \<and> n \<le> 102 then Some (of_nat (n - 87))
      else if 65 \<le> n \<and> n \<le> 70 then Some (of_nat (n - 55))
      else None)"
proof -
  have b: "(of_char c :: 8 word) = of_nat (of_char c)" by (simp add: of_nat_of_char)
  have ub: "unat (of_char c :: 8 word) = of_char c" by (simp add: b unat_of_nat)
  show ?thesis
    unfolding fromHexChar_def Let_def word_le_nat_alt ub
    by (simp add: b of_nat_diff)
qed

lemma hex_digit_codes:
  assumes "n \<in> {48..57} \<union> {97..102} \<union> {65..70}"
  shows "(n::nat) \<in> of_char ` set ''0123456789abcdefABCDEF''"
proof -
  from assms have "n \<in> {48, 49, 50, 51, 52, 53, 54, 55, 56, 57, 97, 98, 99, 100, 101, 102,
      65, 66, 67, 68, 69, 70}"
    by (simp add: atLeastAtMost_def atLeast_def atMost_def) arith
  also have "\<dots> = of_char ` set ''0123456789abcdefABCDEF''"
    by simp
  finally show ?thesis .
qed

lemma fromHexChar_is_hex_digit:
  assumes "fromHexChar c = Some a"
  shows "is_hex_digit c"
proof -
  let ?n = "of_char c :: nat"
  from assms have "?n \<in> {48..57} \<union> {97..102} \<union> {65..70}"
    by (auto simp: fromHexChar_nat Let_def split: if_splits)
  then have "?n \<in> of_char ` set ''0123456789abcdefABCDEF''" by (rule hex_digit_codes)
  then have "c \<in> set ''0123456789abcdefABCDEF''"
    by (simp only: inj_image_mem_iff [OF inj_of_char])
  then show ?thesis
    by (simp only: is_hex_digit_def)
qed

lemma hex_Decode_length:
  "hex_Decode s = Inr bs \<Longrightarrow> length s = 2 * length bs"
  by (induction s arbitrary: bs rule: hex_Decode.induct)
     (auto split: option.splits sum.splits)

lemma hex_Decode_digits:
  "hex_Decode s = Inr bs \<Longrightarrow> list_all is_hex_digit s"
  by (induction s arbitrary: bs rule: hex_Decode.induct)
     (auto split: option.splits sum.splits dest: fromHexChar_is_hex_digit)

text \<open>
  C9. Whatever the string, \<open>ObjectID\<close> returns 12 bytes; when the string is not 24
  hexadecimal digits they are the 12 zero bytes of \<open>NilObjectID\<close>, and no error is returned.
\<close>

theorem ObjectID_is_12_bytes_zero_when_invalid:
  "length (ObjectID s) = 12 \<and> (\<not> valid_hex24 s \<longrightarrow> ObjectID s = replicate 12 0)"
proof -
  have len: "length (ObjectID s) = 12"
    by (auto simp: ObjectID_def ObjectIDFromHex_def NilObjectID_def split: sum.splits
        dest: hex_Decode_length)
  have zero: "ObjectID s = replicate 12 0" if "\<not> valid_hex24 s"
    using that
    by (auto simp: ObjectID_def ObjectIDFromHex_def NilObjectID_def valid_hex24_def
        split: sum.splits dest: hex_Decode_digits)
  from len zero show ?thesis by blast
qed

theorem ObjectID_is_12_bytes_zero_when_invalid_witness:
  "ObjectID ''not-an-object-id'' = [0, 0, 0, 0, 0, 0, 0, 0, 0, 0, 0, 0] \<and>
   ObjectID ''zzzzzzzzzzzzzzzzzzzzzzzz'' = [0, 0, 0, 0, 0, 0, 0, 0, 0, 0, 0, 0] \<and>
   ObjectID ''507f1f77bcf86cd79943901g'' = [0, 0, 0, 0, 0, 0, 0, 0, 0, 0, 0, 0]"
  using ObjectID_is_12_bytes_zero_when_invalid [of "''not-an-object-id''"]
    ObjectID_is_12_bytes_zero_when_invalid [of "''zzzzzzzzzzzzzzzzzzzzzzzz''"]
    ObjectID_is_12_bytes_zero_when_invalid [of "''507f1f77bcf86cd79943901g''"]
  by (simp add: valid_hex24_def is_hex_digit_def numeral_eq_Suc)


lemma fromHexChar_hextable:
  assumes "n < 16"
  shows "fromHexChar (hextable ! n) = Some (of_nat n)"
proof -
  from assms have "n \<in> {0, 1, 2, 3, 4, 5, 6, 7, 8, 9, 10, 11, 12, 13, 14, 15}"
    by simp arith
  then show ?thesis
    by (auto simp: hextable_def fromHexChar_nat)
qed

lemma hi_nibble: "unat (drop_bit 4 v) < 16" for v :: "8 word"
proof -
  have "unat v < 256" using unsigned_less [of v] by simp
  then show ?thesis by (simp add: drop_bit_eq_div unat_div)
qed

lemma mask_4: "(15 :: 8 word) = mask 4"
  by (simp add: mask_eq_exp_minus_1)

lemma low_bits: "v AND 15 = take_bit 4 v" for v :: "8 word"
  by (simp add: take_bit_eq_mask mask_4)

lemma lo_nibble: "unat (v AND 15) < 16" for v :: "8 word"
proof -
  have "unat (take_bit 4 v) = take_bit 4 (unat v)"
    by (simp add: unsigned_take_bit_eq)
  also have "\<dots> < 2 ^ 4"
    by (rule take_bit_nat_less_exp)
  finally show ?thesis by (simp add: low_bits)
qed

lemma join_nibbles: "push_bit 4 (drop_bit 4 v) OR (v AND 15) = v" for v :: "8 word"
proof -
  have "push_bit 4 (drop_bit 4 v) OR take_bit 4 v = v"
    by (rule bit_word_eqI) (auto simp: bit_simps)
  then show ?thesis by (simp add: low_bits)
qed


lemma hex_Decode_Encode: "hex_Decode (hex_Encode bs) = Inr bs"
proof (induction bs)
  case Nil
  show ?case by simp
next
  case (Cons v bs)
  have hi: "fromHexChar (hextable ! unat (drop_bit 4 v)) = Some (drop_bit 4 v)"
    using fromHexChar_hextable [OF hi_nibble [of v]] by simp
  have lo: "fromHexChar (hextable ! unat (v AND 15)) = Some (v AND 15)"
    using fromHexChar_hextable [OF lo_nibble [of v]] by simp
  show ?case
    by (simp add: hi lo Cons.IH join_nibbles)
qed

lemma length_hex_Encode: "length (hex_Encode bs) = 2 * length bs"
  by (induction bs) simp_all

text \<open>
  C10. For an identifier of 12 bytes, \<open>ObjectID\<close> of its hexadecimal string is the
  identifier itself.
\<close>

theorem ObjectID_of_Hex:
  assumes "length id' = 12"
  shows "ObjectID (Hex id') = id'"
  using assms
  by (simp add: ObjectID_def ObjectIDFromHex_def Hex_def length_hex_Encode hex_Decode_Encode)

theorem ObjectID_of_Hex_witness:
  "Hex [0x50, 0x7f, 0x1f, 0x77, 0xbc, 0xf8, 0x6c, 0xd7, 0x99, 0x43, 0x90, 0x11] =
     ''507f1f77bcf86cd799439011'' \<and>
   ObjectID ''507f1f77bcf86cd799439011'' =
     [0x50, 0x7f, 0x1f, 0x77, 0xbc, 0xf8, 0x6c, 0xd7, 0x99, 0x43, 0x90, 0x11]"
proof -
  have hex: "Hex [0x50, 0x7f, 0x1f, 0x77, 0xbc, 0xf8, 0x6c, 0xd7, 0x99, 0x43, 0x90, 0x11] =
      ''507f1f77bcf86cd799439011''"
    by (simp add: Hex_def hextable_def drop_bit_eq_div)
  from ObjectID_of_Hex [of "[0x50, 0x7f, 0x1f, 0x77, 0xbc, 0xf8, 0x6c, 0xd7, 0x99, 0x43, 0x90, 0x11]"]
  show ?thesis unfolding hex by simp
qed

section \<open>Properties of FindMany\<close>

lemma uint_of_sint:
  fixes l :: "64 word"
  shows "uint l = (if sint l < 0 then sint l + 2 ^ 64 else sint l)"
proof -
  have u: "uint l = sint l mod 2 ^ 64"
    by (simp add: uint_sint take_bit_eq_mod)
  have lo: "- (2 ^ 63) \<le> sint l" using sint_ge [of l] by simp
  have hi: "sint l < 2 ^ 63" using sint_lt [of l] by simp
  show ?thesis
  proof (cases "sint l < 0")
    case True
    have "sint l mod 2 ^ 64 = (sint l + 2 ^ 64) mod 2 ^ 64" by simp
    also have "\<dots> = sint l + 2 ^ 64"
      using lo True by (intro mod_pos_pos_trivial) simp_all
    finally show ?thesis using u True by simp
  next
    case False
    then have "sint l mod 2 ^ 64 = sint l"
      using hi by (intro mod_pos_pos_trivial) simp_all
    then show ?thesis using u False by simp
  qed
qed

lemma abs_sint_le_unat: "nat \<bar>sint l\<bar> \<le> unat l" for l :: "64 word"
proof -
  have "\<bar>sint l\<bar> \<le> uint l"
    using sint_ge [of l] by (simp add: uint_of_sint)
  then show ?thesis by (simp add: nat_le_iff)
qed

lemma nat_sint_nonneg: "\<not> sint l < 0 \<Longrightarrow> nat (sint l) = unat l" for l :: "64 word"
proof -
  assume "\<not> sint l < 0"
  then have "sint l = uint l" by (simp add: uint_of_sint)
  then show ?thesis by (simp only: unat_eq_nat_uint)
qed


lemma FindMany_mem_success:
  assumes "Storage_FindMany (mem_database matches key unmarshal zero faults colls)
             ctx coll flt limit offset srt dest = ((total', None), dest')"
  shows "total' = of_nat (length (filter (matches flt) (colls coll)))"
    and "\<not> sint offset < 0"
    and "dest' = decode_all unmarshal zero
           (apply_limit (Some limit) (apply_skip (Some offset)
              (apply_sort key
                 (if srt = [] then None
                  else if HasPrefix srt ''-'' then Some [(TrimPrefix srt ''-'', - 1)]
                  else Some [(srt, 1)])
                 (filter (matches flt) (colls coll))))) dest"
  using assms
  by (auto simp: Storage_FindMany_def mem_database_def mem_Collection_def options_Find_def Let_def
      split: option.splits if_splits sum.splits prod.splits)

lemma length_decode_all: "length (decode_all unmarshal zero ds dest) = length ds"
  by (induction unmarshal zero ds dest rule: decode_all.induct) simp_all

lemma decode_all_empty: "decode_all unmarshal zero ds [] = map (\<lambda>d. unmarshal d zero) ds"
  by (induction ds) simp_all

lemma map_decode_all:
  assumes "\<And>d x. field (unmarshal d x) = k d"
  shows "map field (decode_all unmarshal zero ds dest) = map k ds"
proof (induction ds arbitrary: dest)
  case Nil
  show ?case by simp
next
  case (Cons d ds)
  then show ?case by (cases dest) (simp_all add: assms)
qed

lemma length_apply_limit:
  "limit \<noteq> 0 \<Longrightarrow> length (apply_limit (Some limit) ds) \<le> unat limit"
  using abs_sint_le_unat [of limit] by (auto simp: apply_limit_def signed_eq_0_iff)

lemma apply_limit_zero: "apply_limit (Some 0) ds = ds"
  by (simp add: apply_limit_def)

lemma sorted_wrt_apply_limit: "sorted_wrt P ds \<Longrightarrow> sorted_wrt P (apply_limit lim ds)"
  by (simp add: apply_limit_def sorted_wrt_take split: option.splits)

lemma apply_sort_descending:
  "sorted_wrt (\<lambda>a b. key F b \<le> key F a) (apply_sort key (Some [(F, - 1)]) ds)"
proof -
  have "sorted_wrt (\<lambda>a b. key F a \<le> key F b) (sort_key (key F) ds)"
    using sorted_sort_key [of "key F" ds] by (simp only: sorted_map)
  then show ?thesis
    by (simp add: apply_sort_def sorted_wrt_rev)
qed

lemma apply_sort_ascending:
  "sorted_wrt (\<lambda>a b. key F a \<le> key F b) (apply_sort key (Some [(F, 1)]) ds)"
  using sorted_sort_key [of "key F" ds] by (simp add: apply_sort_def sorted_map)

lemma mset_apply_sort: "mset (apply_sort key srt ds) = mset ds"
  by (simp add: apply_sort_def split: option.splits list.splits)

lemma HasPrefix_dash: "HasPrefix (CHR ''-'' # F) ''-''" "TrimPrefix (CHR ''-'' # F) ''-'' = F"
  by (simp_all add: HasPrefix_def TrimPrefix_def)

text \<open>
  C6, as the code has it. For a call of \<open>FindMany\<close> that succeeds on a store that answers
  as the driver documents:
  \<^item> the total is the number of documents the filter selects, whatever the limit and offset;
  \<^item> there is a page of those documents: they are put in order (descending on \<open>F\<close> when
    the sort string is \<open>-F\<close>, ascending on the sort string when it is not empty and has no
    \<open>-\<close> in front, the store's own order when it is empty), the first \<open>offset\<close> are skipped
    and the limit is applied to the rest;
  \<^item> the destination receives the documents of the page, one element each and in the
    page's order, each decoded into the element the destination held at that place and
    into a new element beyond them; so it holds as many elements as the page has
    documents, and whenever an element shows the field its document is ordered by, the
    destination is in that order;
  \<^item> when the limit is not 0 these are at most \<open>limit\<close>; when the limit is 0 there is no
    bound: they are everything after the offset.
\<close>

theorem FindMany_total_and_page:
  assumes "Storage_FindMany (mem_database matches key unmarshal zero faults colls)
             ctx coll flt limit offset srt dest = ((total', None), dest')"
  shows "total' = of_nat (length (filter (matches flt) (colls coll))) \<and>
         (\<exists>ordered page.
            mset ordered = mset (filter (matches flt) (colls coll)) \<and>
            (srt = [] \<longrightarrow> ordered = filter (matches flt) (colls coll)) \<and>
            (\<forall>F. srt = ''-'' @ F \<longrightarrow> sorted_wrt (\<lambda>a b. key F b \<le> key F a) ordered) \<and>
            (srt \<noteq> [] \<and> \<not> HasPrefix srt ''-'' \<longrightarrow> sorted_wrt (\<lambda>a b. key srt a \<le> key srt b) ordered) \<and>
            page = apply_limit (Some limit) (drop (unat offset) ordered) \<and>
            dest' = decode_all unmarshal zero page dest \<and>
            length dest' = length page \<and>
            (dest = [] \<longrightarrow> dest' = map (\<lambda>d. unmarshal d zero) page)) \<and>
         (limit \<noteq> 0 \<longrightarrow> length dest' \<le> unat limit) \<and>
         (limit = 0 \<longrightarrow>
            length dest' = length (filter (matches flt) (colls coll)) - unat offset) \<and>
         (\<forall>F. srt = ''-'' @ F \<and> (\<forall>d x. field (unmarshal d x) = key F d) \<longrightarrow>
            sorted_wrt (\<lambda>a b. field b \<le> field a) dest') \<and>
         (srt \<noteq> [] \<and> \<not> HasPrefix srt ''-'' \<and> (\<forall>d x. field (unmarshal d x) = key srt d) \<longrightarrow>
            sorted_wrt (\<lambda>a b. field a \<le> field b) dest')"
proof -
  let ?matching = "filter (matches flt) (colls coll)"
  let ?spec = "if srt = [] then None
               else if HasPrefix srt ''-'' then Some [(TrimPrefix srt ''-'', - 1)]
               else Some [(srt, 1)]"
  let ?ordered = "apply_sort key ?spec ?matching"
  let ?page = "apply_limit (Some limit) (drop (unat offset) ?ordered)"
  note run = FindMany_mem_success [OF assms]
  have skip: "apply_skip (Some offset) ?ordered = drop (unat offset) ?ordered"
    using run(2) by (simp add: apply_skip_def nat_sint_nonneg)
  have decoded: "dest' = decode_all unmarshal zero ?page dest"
    using run(3) skip by simp
  have len: "length dest' = length ?page"
    using decoded by (simp add: length_decode_all)
  have fresh: "dest' = map (\<lambda>d. unmarshal d zero) ?page" if "dest = []"
    using decoded that by (simp add: decode_all_empty)
  have perm: "mset ?ordered = mset ?matching"
    by (rule mset_apply_sort)
  have natural: "?ordered = ?matching" if "srt = []"
    using that by (simp add: apply_sort_def)
  have desc: "sorted_wrt (\<lambda>a b. key F b \<le> key F a) ?ordered" if "srt = ''-'' @ F" for F
    using that apply_sort_descending [of key F ?matching] by (simp add: HasPrefix_dash)
  have asc: "sorted_wrt (\<lambda>a b. key srt a \<le> key srt b) ?ordered"
    if "srt \<noteq> [] \<and> \<not> HasPrefix srt ''-''"
    using that apply_sort_ascending [of key srt ?matching] by simp
  have bound: "length dest' \<le> unat limit" if "limit \<noteq> 0"
    using that len by (simp add: length_apply_limit)
  have unbounded: "length dest' = length ?matching - unat offset" if "limit = 0"
  proof -
    have "length ?ordered = length ?matching"
      using perm by (rule mset_eq_length)
    with that len show ?thesis by (simp add: apply_limit_zero)
  qed
  have keep: "sorted_wrt P ?page" if "sorted_wrt P ?ordered" for P
    using that by (simp add: sorted_wrt_apply_limit sorted_wrt_drop)
  have shown: "sorted_wrt (\<lambda>a b. R (field a) (field b)) dest'"
    if "sorted_wrt (\<lambda>a b. R (k a) (k b)) ?page" and "\<forall>d x. field (unmarshal d x) = k d"
    for R k
  proof -
    from that(2) have "map field dest' = map k ?page"
      unfolding decoded by (intro map_decode_all) simp
    moreover from that(1) have "sorted_wrt R (map k ?page)"
      by (simp add: sorted_wrt_map)
    ultimately have "sorted_wrt R (map field dest')" by simp
    then show ?thesis by (simp add: sorted_wrt_map)
  qed
  have desc_dest: "sorted_wrt (\<lambda>a b. field b \<le> field a) dest'"
    if "srt = ''-'' @ F \<and> (\<forall>d x. field (unmarshal d x) = key F d)" for F
    using that shown [of "\<lambda>a b. b \<le> a" "key F", OF keep [OF desc]] by blast
  have asc_dest: "sorted_wrt (\<lambda>a b. field a \<le> field b) dest'"
    if "srt \<noteq> [] \<and> \<not> HasPrefix srt ''-'' \<and> (\<forall>d x. field (unmarshal d x) = key srt d)"
    using that shown [of "\<lambda>a b. a \<le> b" "key srt", OF keep [OF asc]] by blast
  have paged: "\<exists>ordered page.
        mset ordered = mset ?matching \<and>
        (srt = [] \<longrightarrow> ordered = ?matching) \<and>
        (\<forall>F. srt = ''-'' @ F \<longrightarrow> sorted_wrt (\<lambda>a b. key F b \<le> key F a) ordered) \<and>
        (srt \<noteq> [] \<and> \<not> HasPrefix srt ''-'' \<longrightarrow> sorted_wrt (\<lambda>a b. key srt a \<le> key srt b) ordered) \<and>
        page = apply_limit (Some limit) (drop (unat offset) ordered) \<and>
        dest' = decode_all unmarshal zero page dest \<and>
        length dest' = length page \<and>
        (dest = [] \<longrightarrow> dest' = map (\<lambda>d. unmarshal d zero) page)"
    using perm natural desc asc decoded len fresh
    by (intro exI [of _ ?ordered] exI [of _ ?page]) blast
  show ?thesis
    using run(1) paged bound unbounded desc_dest asc_dest by blast
qed

theorem FindMany_total_and_page_witness:
  "Storage_FindMany (age_store [3, 1, 4, 1, 5, 9, 2, 6, 0, 5, 3, 5, 8, 9, 7, 9, 0])
     () ''people'' 1 10 0 ''-age'' [(''old1'', 0), (''old2'', 0)] =
     ((15, None),
      [(''old1'', 9), (''old2'', 9), ('''', 9), ('''', 8), ('''', 7), ('''', 6), ('''', 5),
       ('''', 5), ('''', 5), ('''', 4)]) \<and>
   length [(''old1'', 9 :: nat), (''old2'', 9), ('''', 9), ('''', 8), ('''', 7), ('''', 6), ('''', 5),
       ('''', 5), ('''', 5), ('''', 4)] \<le> unat (10 :: 64 word) \<and>
   sorted_wrt (\<lambda>a b. snd b \<le> snd a)
     [(''old1'', 9 :: nat), (''old2'', 9), ('''', 9), ('''', 8), ('''', 7), ('''', 6), ('''', 5),
       ('''', 5), ('''', 5), ('''', 4)]"
proof -
  have run: "Storage_FindMany
     (mem_database (\<lambda>flt d. flt \<le> d) (\<lambda>F d. d) (\<lambda>d (name, age). (name, d)) ('''', 0) no_faults
        (\<lambda>collection. [3, 1, 4, 1, 5, 9, 2, 6, 0, 5, 3, 5, 8, 9, 7, 9, 0 :: nat]))
     () ''people'' 1 10 0 ''-age'' [(''old1'', 0), (''old2'', 0)] =
     ((15, None),
      [(''old1'', 9), (''old2'', 9), ('''', 9), ('''', 8), ('''', 7), ('''', 6), ('''', 5),
       ('''', 5), ('''', 5), ('''', 4)])"
    by (simp add: Storage_FindMany_def mem_database_def mem_Collection_def options_Find_def
        no_faults_def HasPrefix_def TrimPrefix_def apply_sort_def apply_skip_def apply_limit_def)
  from FindMany_total_and_page [OF run, of snd] run show ?thesis
    by (simp add: age_store_def)
qed

text \<open>
  C6 as stated fails at a limit of 0: the store holds three matching documents and the
  destination, empty before the call, receives all three.
\<close>

theorem FindMany_limit_zero_counterexample:
  "Storage_FindMany (age_store [3, 1, 4]) () ''people'' 1 0 0 [] [] =
     ((3, None), [('''', 3), ('''', 1), ('''', 4)]) \<and>
   \<not> length [('''', 3 :: nat), ('''', 1), ('''', 4)] \<le> unat (0 :: 64 word)"
  by (simp add: Storage_FindMany_def age_store_def mem_database_def mem_Collection_def
      options_Find_def no_faults_def apply_sort_def apply_skip_def apply_limit_def)

end
